theory Spec2Isabelle
  imports Complex_Main "HOL-Library.Char_ord" "HOL-Library.List_Lexorder"
begin

section \<open>The type float64\<close>

text \<open>
  Go's \<open>float64\<close> is IEEE 754 binary64. A value is a rational that binary64 represents,
  an infinity or a NaN, and every operation is the exact operation followed by rounding to
  nearest, ties to even. The sign of a zero is not represented: the modelled code never
  divides by a negative zero (its only divisor is a sum of weights that carry no sign), and
  no other operation it uses tells the two zeros apart.
\<close>

datatype float64 = Finite rat | PosInf | NegInf | NaN

text \<open>The number of binary digits of a positive integer.\<close>

function bitlen :: "int \<Rightarrow> int" where
  "bitlen n = (if n \<le> 0 then 0 else 1 + bitlen (n div 2))"
  by pat_completeness auto
termination
  by (relation "measure nat") auto

declare bitlen.simps [simp del]

text \<open>For \<open>0 < x\<close>, the exponent \<open>e\<close> with \<open>2^e \<le> x < 2^(e+1)\<close>.\<close>

definition ilog2 :: "rat \<Rightarrow> int" where
  "ilog2 x = (if 1 \<le> x then bitlen \<lfloor>x\<rfloor> - 1 else - bitlen (\<lceil>1 / x\<rceil> - 1))"

definition pow2 :: "int \<Rightarrow> rat" where
  "pow2 e = (if 0 \<le> e then 2 ^ nat e else 1 / 2 ^ nat (- e))"

text \<open>Rounding to the nearest integer, a tie to the even one; \<open>n\<close> is the floor of \<open>r\<close>.\<close>

definition nearestEven :: "rat \<Rightarrow> int \<Rightarrow> int" where
  "nearestEven r n =
     (if r - of_int n < 1 / 2 then n
      else if 1 / 2 < r - of_int n then n + 1
      else if even n then n else n + 1)"

definition roundHalfEven :: "rat \<Rightarrow> int" where
  "roundHalfEven r = nearestEven r \<lfloor>r\<rfloor>"

text \<open>
  Rounding a rational to binary64: 53 significant bits above \<open>2^-1022\<close>, multiples of
  \<open>2^-1074\<close> below. \<open>e\<close> is the exponent of the last place and \<open>m\<close> the rounded
  significand, at most \<open>2^53\<close>; the value \<open>m \<times> 2^e\<close> reaches \<open>2^1024\<close>, and is an
  infinity, exactly when \<open>e\<close> exceeds 971 or is 971 with \<open>m = 2^53\<close>.
\<close>

definition fromParts :: "bool \<Rightarrow> int \<Rightarrow> int \<Rightarrow> float64" where
  "fromParts negative e m =
     (if 971 < e \<or> (e = 971 \<and> 2 ^ 53 \<le> m) then (if negative then NegInf else PosInf)
      else Finite (if negative then - (of_int m * pow2 e) else of_int m * pow2 e))"

definition roundAt :: "rat \<Rightarrow> int \<Rightarrow> float64" where
  "roundAt x e = fromParts (x < 0) e (roundHalfEven (\<bar>x\<bar> / pow2 e))"

definition round64 :: "rat \<Rightarrow> float64" where
  "round64 x = (if x = 0 then Finite 0 else roundAt x (max (ilog2 \<bar>x\<bar>) (- 1022) - 52))"

fun fneg :: "float64 \<Rightarrow> float64" where
  "fneg (Finite x) = Finite (- x)"
| "fneg PosInf = NegInf"
| "fneg NegInf = PosInf"
| "fneg NaN = NaN"

fun fabs :: "float64 \<Rightarrow> float64" where
  "fabs (Finite x) = Finite \<bar>x\<bar>"
| "fabs PosInf = PosInf"
| "fabs NegInf = PosInf"
| "fabs NaN = NaN"

fun fadd :: "float64 \<Rightarrow> float64 \<Rightarrow> float64" where
  "fadd (Finite x) (Finite y) = round64 (x + y)"
| "fadd NaN b = NaN"
| "fadd a NaN = NaN"
| "fadd PosInf NegInf = NaN"
| "fadd NegInf PosInf = NaN"
| "fadd PosInf b = PosInf"
| "fadd NegInf b = NegInf"
| "fadd (Finite x) b = b"

definition fsub :: "float64 \<Rightarrow> float64 \<Rightarrow> float64" where
  "fsub a b = fadd a (fneg b)"

fun fmul :: "float64 \<Rightarrow> float64 \<Rightarrow> float64" where
  "fmul (Finite x) (Finite y) = round64 (x * y)"
| "fmul NaN b = NaN"
| "fmul a NaN = NaN"
| "fmul (Finite x) b = (if x = 0 then NaN else if 0 < x then b else fneg b)"
| "fmul a (Finite y) = (if y = 0 then NaN else if 0 < y then a else fneg a)"
| "fmul a b = (if a = b then PosInf else NegInf)"

fun fdiv :: "float64 \<Rightarrow> float64 \<Rightarrow> float64" where
  "fdiv (Finite x) (Finite y) =
     (if y = 0 then (if x = 0 then NaN else if 0 < x then PosInf else NegInf)
      else round64 (x / y))"
| "fdiv NaN b = NaN"
| "fdiv a NaN = NaN"
| "fdiv (Finite x) b = Finite 0"
| "fdiv a (Finite y) = (if 0 \<le> y then a else fneg a)"
| "fdiv a b = NaN"

text \<open>The comparison \<open><=\<close>: false when an operand is a NaN.\<close>

fun fle :: "float64 \<Rightarrow> float64 \<Rightarrow> bool" where
  "fle (Finite x) (Finite y) = (x \<le> y)"
| "fle NaN b = False"
| "fle a NaN = False"
| "fle NegInf b = True"
| "fle a PosInf = True"
| "fle a b = False"

section \<open>Verdicts (runner/runner.go)\<close>

text \<open>
  A Go function that can panic returns \<open>panic + 'a\<close> here. The run-time panics the
  modelled code can raise are an index out of range, the division by zero of
  \<open>big.Rat.Quo\<close> and a nil pointer dereference.
\<close>

datatype panic = IndexOutOfRange | DivisionByZero | NilDereference

text \<open>
  Modelled from the spec: \<open>common.VerdictList\<close>, the slice of verdict strings that
  \<open>worseVerdict\<close> searches. Its declaration (package \<open>common\<close>) is not part of the
  sources. The specification gives the verdicts from best to worst as
  \<open>AC < PA < WA < OK < TLE < MLE < OLE < RTE < CE < JE\<close> and says that the comparator
  returns the greater one; \<open>worseVerdict\<close> returns the entry with the smaller index, so
  the slice holds the verdicts from worst to best.
\<close>

definition VerdictList :: "string list" where
  "VerdictList =
     [''JE'', ''CE'', ''RTE'', ''OLE'', ''MLE'', ''TLE'', ''OK'', ''WA'', ''PA'', ''AC'']"

text \<open>
  The order of the specification, written as it is there (best first). \<open>severity v\<close> is
  the position of \<open>v\<close> in it.
\<close>

definition verdictOrder :: "string list" where
  "verdictOrder =
     [''AC'', ''PA'', ''WA'', ''OK'', ''TLE'', ''MLE'', ''OLE'', ''RTE'', ''CE'', ''JE'']"

fun position :: "string list \<Rightarrow> string \<Rightarrow> nat" where
  "position [] v = 0"
| "position (x # xs) v = (if x = v then 0 else Suc (position xs v))"

definition severity :: "string \<Rightarrow> nat" where
  "severity v = position verdictOrder v"

text \<open>
  \<open>sliceIndex\<close>: the loop \<open>for i := 0; i < limit; i++\<close>, returning the first index
  that satisfies the predicate and \<open>-1\<close> when there is none.
\<close>

function sliceIndex_loop :: "int \<Rightarrow> int \<Rightarrow> (int \<Rightarrow> bool) \<Rightarrow> int" where
  "sliceIndex_loop i limit predicate =
     (if i < limit
      then (if predicate i then i else sliceIndex_loop (i + 1) limit predicate)
      else - 1)"
  by pat_completeness auto
termination
  by (relation "measure (\<lambda>(i, limit, p). nat (limit - i))") auto

declare sliceIndex_loop.simps [simp del]

definition sliceIndex :: "int \<Rightarrow> (int \<Rightarrow> bool) \<Rightarrow> int" where
  "sliceIndex limit predicate = sliceIndex_loop 0 limit predicate"

definition min_int :: "int \<Rightarrow> int \<Rightarrow> int" where
  "min_int a b = (if a < b then a else b)"

text \<open>
  \<open>worseVerdict\<close>. The package-level slice it reads is its first argument here. The
  predicates index the slice inside \<open>0 \<le> i < len\<close> only; the final index expression
  \<open>VerdictList[min(idxA, idxB)]\<close> panics when the index is \<open>-1\<close>.
\<close>

definition index_string :: "string list \<Rightarrow> int \<Rightarrow> panic + string" where
  "index_string xs i =
     (if 0 \<le> i \<and> i < int (length xs) then Inr (xs ! nat i) else Inl IndexOutOfRange)"

definition worseVerdict :: "string list \<Rightarrow> string \<Rightarrow> string \<Rightarrow> panic + string" where
  "worseVerdict vl a b =
     (let idxA = sliceIndex (int (length vl)) (\<lambda>i. vl ! nat i = a);
          idxB = sliceIndex (int (length vl)) (\<lambda>i. vl ! nat i = b)
      in index_string vl (min_int idxA idxB))"


section \<open>Interactive verdict reconciliation (Grade, runner/runner.go)\<close>

text \<open>
  \<open>RunMetadata\<close> is declared outside the sources at hand; the record has the fields the
  reconciliation reads. The loop that collects the results of the binaries of one case also
  accumulates \<open>Time\<close>, \<open>WallTime\<close> and \<open>Memory\<close>; they never influence a verdict and
  are left out.
\<close>

record RunMetadata =
  meta_Verdict :: string
  meta_ExitStatus :: int
  meta_Signal :: "string option"

datatype binaryType = binaryProblemsetter | binaryContestant | binaryValidator

record intermediateRunResult =
  irr_name :: string
  irr_runMeta :: RunMetadata
  irr_binaryType :: binaryType

text \<open>The local variables of the collecting loop.\<close>

record collectState =
  parentMetadata :: "RunMetadata option"
  chosenMetadata :: RunMetadata
  chosenMetadataEmpty :: bool
  finalVerdict :: string

definition collectInit :: collectState where
  "collectInit =
     \<lparr>parentMetadata = None,
      chosenMetadata = \<lparr>meta_Verdict = ''OK'', meta_ExitStatus = 0, meta_Signal = None\<rparr>,
      chosenMetadataEmpty = True,
      finalVerdict = ''OK''\<rparr>"

text \<open>
  The loop \<open>for i := 0; i < regularBinaryCount; i++\<close> over the results received from
  the channel; the list is the order of arrival.
\<close>

fun Grade_collect ::
  "string list \<Rightarrow> intermediateRunResult list \<Rightarrow> collectState \<Rightarrow> panic + collectState" where
  "Grade_collect vl [] st = Inr st"
| "Grade_collect vl (r # rs) st =
     (if irr_binaryType r = binaryProblemsetter
      then Grade_collect vl rs (st\<lparr>parentMetadata := Some (irr_runMeta r)\<rparr>)
      else
        let st1 = (if meta_Verdict (irr_runMeta r) \<noteq> ''OK'' \<and> chosenMetadataEmpty st
                   then st\<lparr>chosenMetadata := irr_runMeta r, chosenMetadataEmpty := False\<rparr>
                   else st)
        in case worseVerdict vl (finalVerdict st1) (meta_Verdict (irr_runMeta r)) of
             Inl e \<Rightarrow> Inl e
           | Inr v \<Rightarrow> Grade_collect vl rs (st1\<lparr>finalVerdict := v\<rparr>))"

text \<open>
  The block guarded by \<open>parentMetadata != nil && parentMetadata.Verdict != "OK" &&
  chosenMetadata.Verdict == "OK"\<close>, with its chain of \<open>else if\<close> in the source's order.
\<close>

definition Grade_reconcile :: "RunMetadata option \<Rightarrow> RunMetadata \<Rightarrow> RunMetadata" where
  "Grade_reconcile parent chosen =
     (case parent of
        None \<Rightarrow> chosen
      | Some p \<Rightarrow>
          if meta_Verdict p \<noteq> ''OK'' \<and> meta_Verdict chosen = ''OK'' then
            (if meta_Verdict p = ''OLE'' then chosen\<lparr>meta_Verdict := ''OLE''\<rparr>
             else if meta_Verdict p = ''TLE'' then chosen\<lparr>meta_Verdict := ''TLE''\<rparr>
             else if meta_ExitStatus p = 239 then chosen\<lparr>meta_Verdict := ''RTE''\<rparr>
             else if meta_ExitStatus p = 240 then chosen\<lparr>meta_Verdict := ''RTE''\<rparr>
             else if meta_ExitStatus p = 241 then chosen\<lparr>meta_Verdict := ''RTE''\<rparr>
             else if meta_ExitStatus p = 242 then chosen\<lparr>meta_Verdict := ''RTE''\<rparr>
             else if meta_Signal p \<noteq> None \<and> the (meta_Signal p) = ''SIGPIPE''
               then chosen\<lparr>meta_Verdict := ''RTE''\<rparr>
             else chosen\<lparr>meta_Verdict := ''JE''\<rparr>)
          else chosen)"

text \<open>The metadata of one case that is run by its binaries: \<open>runMeta = &chosenMetadata\<close>.\<close>

definition Grade_case ::
  "string list \<Rightarrow> intermediateRunResult list \<Rightarrow> panic + RunMetadata" where
  "Grade_case vl results =
     (case Grade_collect vl results collectInit of
        Inl e \<Rightarrow> Inl e
      | Inr st \<Rightarrow>
          Inr (Grade_reconcile (parentMetadata st)
                 ((chosenMetadata st)\<lparr>meta_Verdict := finalVerdict st\<rparr>)))"

section \<open>Weights and aggregation (Grade, runner/runner.go)\<close>

text \<open>
  \<open>common.CaseSettings\<close> and \<open>common.GroupSettings\<close> as \<open>Grade\<close> uses them: the weight
  of a case is a \<open>*big.Rat\<close>.
\<close>

record CaseSettings =
  case_Name :: string
  case_Weight :: rat

record GroupSettings =
  group_Name :: string
  group_Cases :: "CaseSettings list"

text \<open>\<open>big.Rat.Quo\<close> panics when the divisor is zero.\<close>

definition rat_Quo :: "rat \<Rightarrow> rat \<Rightarrow> panic + rat" where
  "rat_Quo x y = (if y = 0 then Inl DivisionByZero else Inr (x / y))"

text \<open>The two nested loops that add every case weight to \<open>totalWeightFactor\<close>.\<close>

definition sumCaseWeights :: "GroupSettings list \<Rightarrow> rat" where
  "sumCaseWeights groups =
     foldl (\<lambda>total group. foldl (\<lambda>t caseData. t + case_Weight caseData) total (group_Cases group))
       0 groups"

text \<open>
  \<open>totalWeightFactor\<close> after the \<open>if totalWeightFactor.Cmp(new(big.Rat)) <= 0\<close>
  statement: \<open>1\<close> when the sum is not positive, its reciprocal otherwise.
\<close>

definition totalWeightFactor :: "GroupSettings list \<Rightarrow> panic + rat" where
  "totalWeightFactor groups =
     (let total = sumCaseWeights groups
      in if total \<le> 0 then Inr 1 else rat_Quo 1 total)"

text \<open>
  The factor \<open>new(big.Rat).Mul(caseData.Weight, totalWeightFactor)\<close> that scales the
  maximum score and the score of a case.
\<close>

definition normalizedWeight :: "rat \<Rightarrow> CaseSettings \<Rightarrow> rat" where
  "normalizedWeight factor caseData = case_Weight caseData * factor"

definition normalizedWeights :: "GroupSettings list \<Rightarrow> panic + rat list list" where
  "normalizedWeights groups =
     (case totalWeightFactor groups of
        Inl e \<Rightarrow> Inl e
      | Inr factor \<Rightarrow> Inr (map (\<lambda>group. map (normalizedWeight factor) (group_Cases group)) groups))"

text \<open>
  The results \<open>Grade\<close> builds. The maximum score of a group is left out: it is computed
  by the method \<open>GroupSettings.Weight\<close>, which is declared outside the sources at hand,
  and nothing reads it afterwards.
\<close>

record CaseResult =
  cr_Verdict :: string
  cr_Name :: string
  cr_Score :: rat
  cr_ContestScore :: rat
  cr_MaxScore :: rat

record GroupResult =
  gr_Group :: string
  gr_Score :: rat
  gr_ContestScore :: rat
  gr_Cases :: "CaseResult list"

record RunResult =
  run_Verdict :: string
  run_Score :: rat
  run_ContestScore :: rat
  run_MaxScore :: rat
  run_Groups :: "GroupResult list"

text \<open>
  The execution loop. What the sandbox reports for a case is an input of the model:
  \<open>runVerdict name\<close> is the verdict of the metadata \<open>runMeta\<close> of the case called
  \<open>name\<close> (synthesised, read from an output-only submission, or reconciled as above).
  The loop worsens the verdict of the run with it and creates the result of the case.
\<close>

fun Grade_runCases ::
  "string list \<Rightarrow> (string \<Rightarrow> string) \<Rightarrow> rat \<Rightarrow> rat \<Rightarrow> CaseSettings list \<Rightarrow> string
     \<Rightarrow> panic + string \<times> CaseResult list" where
  "Grade_runCases vl runVerdict maxScore factor [] verdict = Inr (verdict, [])"
| "Grade_runCases vl runVerdict maxScore factor (caseData # rest) verdict =
     (case worseVerdict vl verdict (runVerdict (case_Name caseData)) of
        Inl e \<Rightarrow> Inl e
      | Inr v \<Rightarrow>
          (case Grade_runCases vl runVerdict maxScore factor rest v of
             Inl e \<Rightarrow> Inl e
           | Inr (v', results) \<Rightarrow>
               Inr (v',
                 \<lparr>cr_Verdict = runVerdict (case_Name caseData),
                  cr_Name = case_Name caseData,
                  cr_Score = 0,
                  cr_ContestScore = 0,
                  cr_MaxScore = maxScore * normalizedWeight factor caseData\<rparr> # results)))"

fun Grade_runGroups ::
  "string list \<Rightarrow> (string \<Rightarrow> string) \<Rightarrow> rat \<Rightarrow> rat \<Rightarrow> GroupSettings list \<Rightarrow> string
     \<Rightarrow> panic + string \<times> GroupResult list" where
  "Grade_runGroups vl runVerdict maxScore factor [] verdict = Inr (verdict, [])"
| "Grade_runGroups vl runVerdict maxScore factor (grp # rest) verdict =
     (case Grade_runCases vl runVerdict maxScore factor (group_Cases grp) verdict of
        Inl e \<Rightarrow> Inl e
      | Inr (v, caseResults) \<Rightarrow>
          (case Grade_runGroups vl runVerdict maxScore factor rest v of
             Inl e \<Rightarrow> Inl e
           | Inr (v', results) \<Rightarrow>
               Inr (v',
                 \<lparr>gr_Group = group_Name grp,
                  gr_Score = 0,
                  gr_ContestScore = 0,
                  gr_Cases = caseResults\<rparr> # results)))"

text \<open>
  The validation loop over the cases of one group. \<open>runScore name\<close> is the score that
  \<open>CalculateScore\<close> gives the case, \<open>None\<close> when the contestant's or the expected
  output cannot be opened (the loop then goes on to the next case). The state is the
  verdict of the run and the local variables \<open>correct\<close> and \<open>score\<close>.
\<close>

fun Grade_validateCases ::
  "string list \<Rightarrow> (string \<Rightarrow> rat option) \<Rightarrow> rat \<Rightarrow> rat \<Rightarrow> (CaseSettings \<times> CaseResult) list
     \<Rightarrow> string \<times> bool \<times> rat \<Rightarrow> panic + (string \<times> bool \<times> rat) \<times> CaseResult list" where
  "Grade_validateCases vl runScore maxScore factor [] st = Inr (st, [])"
| "Grade_validateCases vl runScore maxScore factor ((caseData, caseResults) # rest)
       (verdict, correct, score) =
     (if cr_Verdict caseResults = ''OK'' then
        (case runScore (case_Name caseData) of
           None \<Rightarrow>
             (case Grade_validateCases vl runScore maxScore factor rest (verdict, correct, score) of
                Inl e \<Rightarrow> Inl e
              | Inr (st, results) \<Rightarrow> Inr (st, caseResults # results))
         | Some s \<Rightarrow>
             let r1 = caseResults\<lparr>cr_Score := cr_Score caseResults + s\<rparr>;
                 r2 = r1\<lparr>cr_ContestScore :=
                        maxScore * normalizedWeight factor caseData * cr_Score r1\<rparr>;
                 score' = score + s * normalizedWeight factor caseData
             in if s = 1 then
                  (case Grade_validateCases vl runScore maxScore factor rest
                          (verdict, correct, score') of
                     Inl e \<Rightarrow> Inl e
                   | Inr (st, results) \<Rightarrow> Inr (st, r2\<lparr>cr_Verdict := ''AC''\<rparr> # results))
                else
                  (case worseVerdict vl verdict ''PA'' of
                     Inl e \<Rightarrow> Inl e
                   | Inr v \<Rightarrow>
                       if s = 0 then
                         (case Grade_validateCases vl runScore maxScore factor rest
                                 (v, False, score') of
                            Inl e \<Rightarrow> Inl e
                          | Inr (st, results) \<Rightarrow>
                              Inr (st, r2\<lparr>cr_Verdict := ''WA''\<rparr> # results))
                       else
                         (case Grade_validateCases vl runScore maxScore factor rest
                                 (v, correct, score') of
                            Inl e \<Rightarrow> Inl e
                          | Inr (st, results) \<Rightarrow>
                              Inr (st, r2\<lparr>cr_Verdict := ''PA''\<rparr> # results))))
      else
        (case Grade_validateCases vl runScore maxScore factor rest (verdict, False, score) of
           Inl e \<Rightarrow> Inl e
         | Inr (st, results) \<Rightarrow> Inr (st, caseResults # results)))"

text \<open>
  The validation loop over the groups: a group whose cases are all correct adds its score
  to the score of the run. The state is the verdict and the score of the run.
\<close>

fun Grade_validateGroups ::
  "string list \<Rightarrow> (string \<Rightarrow> rat option) \<Rightarrow> rat \<Rightarrow> rat \<Rightarrow> (GroupSettings \<times> GroupResult) list
     \<Rightarrow> string \<times> rat \<Rightarrow> panic + (string \<times> rat) \<times> GroupResult list" where
  "Grade_validateGroups vl runScore maxScore factor [] st = Inr (st, [])"
| "Grade_validateGroups vl runScore maxScore factor ((grp, groupResult) # rest)
       (verdict, runTotal) =
     (case Grade_validateCases vl runScore maxScore factor
             (zip (group_Cases grp) (gr_Cases groupResult)) (verdict, True, 0) of
        Inl e \<Rightarrow> Inl e
      | Inr ((v, correct, score), caseResults) \<Rightarrow>
          let g1 = groupResult\<lparr>gr_Cases := caseResults\<rparr>;
              g2 = (if correct
                    then g1\<lparr>gr_Score := gr_Score g1 + score, gr_ContestScore := maxScore * score\<rparr>
                    else g1);
              runTotal' = (if correct then runTotal + score else runTotal)
          in case Grade_validateGroups vl runScore maxScore factor rest (v, runTotal') of
               Inl e \<Rightarrow> Inl e
             | Inr (st, results) \<Rightarrow> Inr (st, g2 # results))"

text \<open>The last statements of \<open>Grade\<close>, after the validation loop.\<close>

definition Grade_finish :: "RunResult \<Rightarrow> RunResult" where
  "Grade_finish runResult =
     (let r1 = (if run_Verdict runResult = ''PA'' \<and> run_Score runResult = 0
                then runResult\<lparr>run_Verdict := ''WA''\<rparr>
                else if run_Verdict runResult = ''OK''
                then runResult\<lparr>run_Verdict := ''AC'', run_Score := 1\<rparr>
                else runResult)
      in r1\<lparr>run_ContestScore := run_MaxScore r1 * run_Score r1\<rparr>)"

text \<open>
  \<open>Grade\<close> from \<open>runResult.Verdict = "OK"\<close> on, for a submission that compiled: the
  weight factor, the execution loop, the validation loop and the last statements.
\<close>

definition Grade_results ::
  "string list \<Rightarrow> (string \<Rightarrow> string) \<Rightarrow> (string \<Rightarrow> rat option) \<Rightarrow> rat \<Rightarrow> GroupSettings list
     \<Rightarrow> panic + RunResult" where
  "Grade_results vl runVerdict runScore maxScore groups =
     (case totalWeightFactor groups of
        Inl e \<Rightarrow> Inl e
      | Inr factor \<Rightarrow>
          (case Grade_runGroups vl runVerdict maxScore factor groups ''OK'' of
             Inl e \<Rightarrow> Inl e
           | Inr (v, groupResults) \<Rightarrow>
               (case Grade_validateGroups vl runScore maxScore factor (zip groups groupResults)
                       (v, 0) of
                  Inl e \<Rightarrow> Inl e
                | Inr ((v', runTotal), groupResults') \<Rightarrow>
                    Inr (Grade_finish
                      \<lparr>run_Verdict = v', run_Score = runTotal, run_ContestScore = 0,
                       run_MaxScore = maxScore, run_Groups = groupResults'\<rparr>))))"

section \<open>The archive builder (CreateArchiveFromGit, grader/v1compat/input.go)\<close>

text \<open>The values of Go's \<open>error\<close> that the modelled functions return.\<close>

datatype error =
  ErrUnexpectedEOF
| HashVerificationFailed
| ErrSyntax
| ErrRange
| UnsupportedValue
| UnknownValidator string
| Failure string

text \<open>
  \<open>common.ProblemSettings\<close> and its parts are declared outside the sources at hand; the
  records have the fields the builder and the validator use. In \<open>input.go\<close> the weight
  of a case and of a group is a \<open>float64\<close>.
\<close>

record ValidatorSettings =
  validator_Name :: string
  validator_Tolerance :: "float64 option"

record v1CaseSettings =
  v1case_Name :: string
  v1case_Weight :: float64

record v1GroupSettings =
  v1group_Cases :: "v1CaseSettings list"
  v1group_Name :: string
  v1group_Weight :: float64

record ProblemSettings =
  settings_Validator :: ValidatorSettings
  settings_Cases :: "v1GroupSettings list"

text \<open>
  The statement after the settings are loaded:
  \<open>if settings.Validator.Name == "token-numeric" { tolerance := 1e-6; ... = &tolerance }\<close>.
\<close>

definition setTolerance :: "ProblemSettings \<Rightarrow> ProblemSettings" where
  "setTolerance settings =
     (if validator_Name (settings_Validator settings) = ''token-numeric''
      then settings\<lparr>settings_Validator :=
             (settings_Validator settings)\<lparr>validator_Tolerance := Some (round64 (1 / 10 ^ 6))\<rparr>\<rparr>
      else settings)"

text \<open>
  A Go map is an association list with distinct keys, in the order in which \<open>range\<close>
  visits it. \<open>put\<close> is the assignment \<open>m[k] = v\<close>.
\<close>

fun put :: "'k \<Rightarrow> 'v \<Rightarrow> ('k \<times> 'v) list \<Rightarrow> ('k \<times> 'v) list" where
  "put k v [] = [(k, v)]"
| "put k v ((k', v') # m) = (if k' = k then (k, v) # m else (k', v') # put k v m)"

text \<open>\<open>strings.SplitN(caseName, ".", 2)[0]\<close>: the name up to its first dot.\<close>

definition groupNameOf :: "string \<Rightarrow> string" where
  "groupNameOf caseName = takeWhile (\<lambda>c. c \<noteq> CHR ''.'') caseName"

text \<open>The first loop over \<open>rawCaseWeights\<close>: \<open>totalWeight += weight\<close>.\<close>

definition totalWeight :: "(string \<times> float64) list \<Rightarrow> float64" where
  "totalWeight rawCaseWeights = foldl (\<lambda>t (caseName, weight). fadd t weight) (Finite 0) rawCaseWeights"

text \<open>
  The body of the second loop, on the maps \<open>groupWeights\<close> and \<open>cases\<close>. A group that
  is not in a map yet starts from 0 and from the empty slice.
\<close>

definition addCase ::
  "float64 \<Rightarrow> (string \<times> float64) list \<times> (string \<times> v1CaseSettings list) list
     \<Rightarrow> string \<times> float64
     \<Rightarrow> (string \<times> float64) list \<times> (string \<times> v1CaseSettings list) list" where
  "addCase tw maps entry =
     (let groupWeights = fst maps; cases = snd maps;
          caseName = fst entry; weight = snd entry;
          groupName = groupNameOf caseName;
          w0 = (case map_of groupWeights groupName of None \<Rightarrow> Finite 0 | Some w \<Rightarrow> w);
          cs0 = (case map_of cases groupName of None \<Rightarrow> [] | Some cs \<Rightarrow> cs)
      in (put groupName (fadd w0 (fdiv weight tw)) groupWeights,
          put groupName
            (cs0 @ [\<lparr>v1case_Name = caseName, v1case_Weight = fdiv weight tw\<rparr>]) cases))"

text \<open>
  \<open>sort.Sort(common.ByCaseName(cases))\<close> and \<open>sort.Sort(common.ByGroupName(...))\<close>
  order by the name, which Go compares byte by byte; the names of a map are distinct, so
  the result does not depend on the sorting algorithm.
\<close>

definition generateCases :: "(string \<times> float64) list \<Rightarrow> v1GroupSettings list" where
  "generateCases rawCaseWeights =
     (let maps = foldl (addCase (totalWeight rawCaseWeights)) ([], []) rawCaseWeights;
          groupWeights = fst maps; cases = snd maps
      in sort_key v1group_Name
           (map (\<lambda>(groupName, cs).
                   \<lparr>v1group_Cases = sort_key v1case_Name cs,
                    v1group_Name = groupName,
                    v1group_Weight =
                      (case map_of groupWeights groupName of None \<Rightarrow> Finite 0 | Some w \<Rightarrow> w)\<rparr>)
              cases))"

text \<open>
  \<open>json.MarshalIndent\<close> returns an error for a \<open>float64\<close> that is a NaN or an
  infinity; the tolerance and the weights are the floating-point fields of the settings
  modelled here.
\<close>

definition isFinite :: "float64 \<Rightarrow> bool" where
  "isFinite f = (case f of Finite x \<Rightarrow> True | _ \<Rightarrow> False)"

definition marshalable :: "ProblemSettings \<Rightarrow> bool" where
  "marshalable settings =
     ((case validator_Tolerance (settings_Validator settings) of
         None \<Rightarrow> True
       | Some tolerance \<Rightarrow> isFinite tolerance) \<and>
      list_all (\<lambda>g. isFinite (v1group_Weight g) \<and>
                    list_all (\<lambda>c. isFinite (v1case_Weight c)) (v1group_Cases g))
        (settings_Cases settings))"

text \<open>
  \<open>CreateArchiveFromGit\<close>, as far as the settings it returns go. The loader, the
  repository and the archive are its environment: \<open>loaded\<close> is what \<open>loader.Load\<close>
  returns, and \<open>walked\<close> is the outcome of opening the repository and walking the tree,
  an error or the map \<open>rawCaseWeights\<close> in the order in which the two loops visit it.
  The settings are marshalled at the end. Writing the archive, the interactive settings
  and the size are left out.
\<close>

definition CreateArchiveFromGit ::
  "error + ProblemSettings \<Rightarrow> error + (string \<times> float64) list \<Rightarrow> error + ProblemSettings" where
  "CreateArchiveFromGit loaded walked =
     (case loaded of
        Inl err \<Rightarrow> Inl err
      | Inr settings \<Rightarrow>
          (case walked of
             Inl walkErr \<Rightarrow> Inl walkErr
           | Inr rawCaseWeights \<Rightarrow>
               let result = (setTolerance settings)\<lparr>settings_Cases := generateCases rawCaseWeights\<rparr>
               in if marshalable result then Inr result else Inl UnsupportedValue))"

section \<open>Tokens (runner/validator.go)\<close>

text \<open>
  A stream is its bytes, a \<open>string\<close>. \<open>utf8.DecodeRune\<close> gives the first code point
  of a byte slice and the number of bytes it takes: the byte itself below \<open>0x80\<close>, a
  sequence of two to four bytes that follows the encoding, and otherwise
  \<open>RuneError\<close> with width 1 (width 0 for the empty slice).
\<close>

definition RuneError :: nat where
  "RuneError = 0xFFFD"

definition byteAt :: "string \<Rightarrow> nat \<Rightarrow> nat" where
  "byteAt p i = of_char (p ! i)"

text \<open>The size of the sequence a first byte announces and the range of its second byte.\<close>

definition seqSize :: "nat \<Rightarrow> nat" where
  "seqSize p0 = (if p0 < 0xE0 then 2 else if p0 < 0xF0 then 3 else 4)"

definition acceptLo :: "nat \<Rightarrow> nat" where
  "acceptLo p0 = (if p0 = 0xE0 then 0xA0 else if p0 = 0xF0 then 0x90 else 0x80)"

definition acceptHi :: "nat \<Rightarrow> nat" where
  "acceptHi p0 = (if p0 = 0xED then 0x9F else if p0 = 0xF4 then 0x8F else 0xBF)"

definition DecodeRune :: "string \<Rightarrow> nat \<times> nat" where
  "DecodeRune p =
     (if length p < 1 then (RuneError, 0)
      else if byteAt p 0 < 0x80 then (byteAt p 0, 1)
      else if byteAt p 0 < 0xC2 \<or> 0xF4 < byteAt p 0 then (RuneError, 1)
      else if length p < seqSize (byteAt p 0) then (RuneError, 1)
      else if byteAt p 1 < acceptLo (byteAt p 0) \<or> acceptHi (byteAt p 0) < byteAt p 1
        then (RuneError, 1)
      else if seqSize (byteAt p 0) \<le> 2
        then (byteAt p 0 mod 32 * 64 + byteAt p 1 mod 64, 2)
      else if byteAt p 2 < 0x80 \<or> 0xBF < byteAt p 2 then (RuneError, 1)
      else if seqSize (byteAt p 0) \<le> 3
        then (byteAt p 0 mod 16 * 4096 + byteAt p 1 mod 64 * 64 + byteAt p 2 mod 64, 3)
      else if byteAt p 3 < 0x80 \<or> 0xBF < byteAt p 3 then (RuneError, 1)
      else (byteAt p 0 mod 8 * 262144 + byteAt p 1 mod 64 * 4096 + byteAt p 2 mod 64 * 64 +
            byteAt p 3 mod 64, 4))"

text \<open>\<open>unicode.IsSpace\<close>: the code points with the property White_Space.\<close>

definition IsSpace :: "nat \<Rightarrow> bool" where
  "IsSpace r =
     ((0x09 \<le> r \<and> r \<le> 0x0D) \<or> r = 0x20 \<or> r = 0x85 \<or> r = 0xA0 \<or> r = 0x1680 \<or>
      (0x2000 \<le> r \<and> r \<le> 0x200A) \<or> r = 0x2028 \<or> r = 0x2029 \<or> r = 0x202F \<or>
      r = 0x205F \<or> r = 0x3000)"

definition isSpace :: "nat \<Rightarrow> bool" where
  "isSpace r = (IsSpace r \<or> (0x1C \<le> r \<and> r \<le> 0x1F))"

definition isNumericRune :: "nat \<Rightarrow> bool" where
  "isNumericRune r = (r = 0x2E \<or> r = 0x2D \<or> (0x30 \<le> r \<and> r \<le> 0x39))"

lemma DecodeRune_width: "p \<noteq> [] \<Longrightarrow> 0 < snd (DecodeRune p)"
  by (cases p) (simp_all add: DecodeRune_def)

text \<open>
  The two loops of \<open>scanTokens\<close> and of \<open>scanNumericTokens\<close>, which differ in the test
  only: \<open>sep\<close> says which runes separate tokens. The first loop skips separators from
  \<open>start\<close> on and returns the index where it stops.
\<close>

function skipLoop :: "(nat \<Rightarrow> bool) \<Rightarrow> string \<Rightarrow> nat \<Rightarrow> nat" where
  "skipLoop sep data start =
     (if start < length data
      then (if \<not> sep (fst (DecodeRune (drop start data))) then start
            else skipLoop sep data (start + snd (DecodeRune (drop start data))))
      else start)"
  by pat_completeness auto
termination
proof (relation "measure (\<lambda>(sep, data, start). length data - start)")
  show "wf (measure (\<lambda>(sep, data, start). length data - start))" by simp
next
  fix sep :: "nat \<Rightarrow> bool" and data :: string and start :: nat
  assume "start < length data"
  then have "0 < snd (DecodeRune (drop start data))" by (intro DecodeRune_width) simp
  then show "((sep, data, start + snd (DecodeRune (drop start data))), (sep, data, start))
      \<in> measure (\<lambda>(sep, data, start). length data - start)"
    using \<open>start < length data\<close> by simp
qed

declare skipLoop.simps [simp del]

text \<open>
  The second loop looks for the separator that ends the token begun at \<open>start\<close>; it
  returns the pair \<open>(advance, token)\<close> of the \<open>return\<close> inside the loop, or \<open>None\<close>
  when the data ends first.
\<close>

function tokenLoop :: "(nat \<Rightarrow> bool) \<Rightarrow> string \<Rightarrow> nat \<Rightarrow> nat \<Rightarrow> (nat \<times> string) option" where
  "tokenLoop sep data start i =
     (if i < length data
      then (if sep (fst (DecodeRune (drop i data)))
            then Some (i + snd (DecodeRune (drop i data)), take (i - start) (drop start data))
            else tokenLoop sep data start (i + snd (DecodeRune (drop i data))))
      else None)"
  by pat_completeness auto
termination
proof (relation "measure (\<lambda>(sep, data, start, i). length data - i)")
  show "wf (measure (\<lambda>(sep, data, start, i). length data - i))" by simp
next
  fix sep :: "nat \<Rightarrow> bool" and data :: string and start i :: nat
  assume "i < length data"
  then have "0 < snd (DecodeRune (drop i data))" by (intro DecodeRune_width) simp
  then show "((sep, data, start, i + snd (DecodeRune (drop i data))), (sep, data, start, i))
      \<in> measure (\<lambda>(sep, data, start, i). length data - i)"
    using \<open>i < length data\<close> by simp
qed

declare tokenLoop.simps [simp del]

text \<open>
  A split function returns how far to advance and the token, \<open>None\<close> for Go's \<open>nil\<close>
  token; neither of the two returns an error.
\<close>

definition splitWith :: "(nat \<Rightarrow> bool) \<Rightarrow> string \<Rightarrow> bool \<Rightarrow> nat \<times> string option" where
  "splitWith sep data atEOF =
     (case tokenLoop sep data (skipLoop sep data 0) (skipLoop sep data 0) of
        Some (advance, token) \<Rightarrow> (advance, Some token)
      | None \<Rightarrow>
          if atEOF \<and> length data > skipLoop sep data 0
          then (length data, Some (drop (skipLoop sep data 0) data))
          else (skipLoop sep data 0, None))"

definition scanTokens :: "string \<Rightarrow> bool \<Rightarrow> nat \<times> string option" where
  "scanTokens data atEOF = splitWith isSpace data atEOF"

definition scanNumericTokens :: "string \<Rightarrow> bool \<Rightarrow> nat \<times> string option" where
  "scanNumericTokens data atEOF = splitWith (\<lambda>r. \<not> isNumericRune r) data atEOF"

text \<open>
  \<open>bufio.Scanner\<close>. The scanner reads its input in chunks and calls the split function
  again with more data until it returns a token, at last with \<open>atEOF\<close>; the two split
  functions find the same tokens however the input is cut, so a call of \<open>Scan\<close> is the
  split function on all the unread input at the end of the file. After a \<open>Scan\<close> that
  found no token, \<open>Text\<close> is empty and every later \<open>Scan\<close> fails too. Read errors and
  tokens that do not fit the scanner's buffer are outside the model.
\<close>

datatype splitFunc = ScanTokens | ScanNumericTokens

fun split :: "splitFunc \<Rightarrow> string \<Rightarrow> bool \<Rightarrow> nat \<times> string option" where
  "split ScanTokens data atEOF = scanTokens data atEOF"
| "split ScanNumericTokens data atEOF = scanNumericTokens data atEOF"

record Scanner =
  sc_split :: splitFunc
  sc_unread :: string
  sc_token :: string

definition NewScanner :: "string \<Rightarrow> splitFunc \<Rightarrow> Scanner" where
  "NewScanner input f = \<lparr>sc_split = f, sc_unread = input, sc_token = []\<rparr>"

definition Scan :: "Scanner \<Rightarrow> bool \<times> Scanner" where
  "Scan s =
     (case split (sc_split s) (sc_unread s) True of
        (advance, Some token) \<Rightarrow>
          (True, s\<lparr>sc_unread := drop advance (sc_unread s), sc_token := token\<rparr>)
      | (advance, None) \<Rightarrow> (False, s\<lparr>sc_unread := [], sc_token := []\<rparr>))"

section \<open>Scores (CalculateScore, runner/validator.go)\<close>

text \<open>\<open>math.Min\<close> and \<open>math.Max\<close>, with their special cases in Go's order.\<close>

definition fmin :: "float64 \<Rightarrow> float64 \<Rightarrow> float64" where
  "fmin x y =
     (if x = NegInf \<or> y = NegInf then NegInf
      else if x = NaN \<or> y = NaN then NaN
      else if fle x y then x else y)"

definition fmax :: "float64 \<Rightarrow> float64 \<Rightarrow> float64" where
  "fmax x y =
     (if x = PosInf \<or> y = PosInf then PosInf
      else if x = NaN \<or> y = NaN then NaN
      else if fle y x then x else y)"

text \<open>
  The functions of Go's library that compare and parse tokens are parameters of the model:
  \<open>EqualFold\<close> stands for \<open>strings.EqualFold\<close> and \<open>ParseFloat\<close> for
  \<open>strconv.ParseFloat(s, 64)\<close>, which returns a value and an error.
\<close>

definition token :: "string \<Rightarrow> string \<Rightarrow> bool" where
  "token a b = (a = b)"

definition tokenCaseless :: "(string \<Rightarrow> string \<Rightarrow> bool) \<Rightarrow> string \<Rightarrow> string \<Rightarrow> bool" where
  "tokenCaseless EqualFold a b = EqualFold a b"

definition tokenNumeric ::
  "(string \<Rightarrow> float64 \<times> error option) \<Rightarrow> string \<Rightarrow> string \<Rightarrow> float64 \<Rightarrow> bool" where
  "tokenNumeric ParseFloat a b tolerance =
     (if snd (ParseFloat a) = None \<and> snd (ParseFloat b) = None
      then fle (fabs (fsub (fst (ParseFloat a)) (fst (ParseFloat b))))
               (fmul (fabs (fst (ParseFloat a))) tolerance)
      else snd (ParseFloat a) \<noteq> None \<and> snd (ParseFloat b) \<noteq> None)"

text \<open>
  \<open>strconv.ParseFloat\<close> on the strings a numeric token can be, those made of digits,
  \<open>.\<close> and \<open>-\<close> (and the empty string): an optional sign, digits with at most one
  point among them and at least one digit, and nothing else. The value is the decimal
  number rounded to the nearest \<open>float64\<close>; a value that rounds to an infinity is a range
  error. Exponents, hexadecimal digits, underscores, infinities and NaNs need characters
  that no numeric token has, and are syntax errors here.
\<close>

definition isDigit :: "char \<Rightarrow> bool" where
  "isDigit c = (CHR ''0'' \<le> c \<and> c \<le> CHR ''9'')"

definition digitsValue :: "string \<Rightarrow> int" where
  "digitsValue ds = foldl (\<lambda>n c. 10 * n + (int (of_char c) - 48)) 0 ds"

definition parseUnsigned :: "bool \<Rightarrow> string \<Rightarrow> float64 \<times> error option" where
  "parseUnsigned negative body =
     (let intDigits = takeWhile isDigit body;
          rest = dropWhile isDigit body;
          fracDigits = (if rest \<noteq> [] \<and> hd rest = CHR ''.'' then takeWhile isDigit (tl rest) else []);
          remainder = (if rest \<noteq> [] \<and> hd rest = CHR ''.'' then dropWhile isDigit (tl rest) else rest)
      in if remainder \<noteq> [] \<or> (intDigits = [] \<and> fracDigits = []) then (Finite 0, Some ErrSyntax)
         else case round64 ((if negative then - 1 else 1) *
                     of_int (digitsValue (intDigits @ fracDigits)) / 10 ^ length fracDigits) of
                Finite v \<Rightarrow> (Finite v, None)
              | overflow \<Rightarrow> (overflow, Some ErrRange))"

definition ParseFloat_decimal :: "string \<Rightarrow> float64 \<times> error option" where
  "ParseFloat_decimal s =
     (if s \<noteq> [] \<and> hd s = CHR ''-'' then parseUnsigned True (tl s)
      else if s \<noteq> [] \<and> hd s = CHR ''+'' then parseUnsigned False (tl s)
      else parseUnsigned False s)"

lemma tokenLoop_advance:
  "tokenLoop sep data start i = Some (advance, tok) \<Longrightarrow> 0 < advance \<and> data \<noteq> []"
proof (induction sep data start i rule: tokenLoop.induct)
  case (1 sep data start i)
  show ?case
  proof (cases "i < length data")
    case False
    then show ?thesis using "1.prems" by (subst (asm) tokenLoop.simps) simp
  next
    case True
    then have w: "0 < snd (DecodeRune (drop i data))" by (intro DecodeRune_width) simp
    show ?thesis
    proof (cases "sep (fst (DecodeRune (drop i data)))")
      case sep: True
      have "advance = i + snd (DecodeRune (drop i data))"
        using "1.prems" True sep by (subst (asm) tokenLoop.simps) simp
      then show ?thesis using w True by auto
    next
      case False
      have "tokenLoop sep data start (i + snd (DecodeRune (drop i data))) = Some (advance, tok)"
        using "1.prems" True False by (subst (asm) tokenLoop.simps) simp
      then show ?thesis using "1.IH" True False by simp
    qed
  qed
qed

lemma Scan_consumes:
  assumes "fst (Scan s)"
  shows "length (sc_unread (snd (Scan s))) < length (sc_unread s)"
proof -
  have *: "length (drop advance data) < length data"
    if "splitWith sep data True = (advance, Some tok)" for sep data advance tok
  proof (cases "tokenLoop sep data (skipLoop sep data 0) (skipLoop sep data 0)")
    case None
    then have "advance = length data \<and> data \<noteq> []"
      using that by (auto simp: splitWith_def split: if_splits)
    then show ?thesis by simp
  next
    case (Some r)
    then have "tokenLoop sep data (skipLoop sep data 0) (skipLoop sep data 0) = Some (advance, tok)"
      using that by (cases r) (simp add: splitWith_def)
    from tokenLoop_advance [OF this] show ?thesis by simp
  qed
  obtain advance t where sp: "split (sc_split s) (sc_unread s) True = (advance, t)"
    by (cases "split (sc_split s) (sc_unread s) True")
  with assms obtain tok where t: "t = Some tok"
    by (cases t) (simp_all add: Scan_def)
  have "\<exists>sep. splitWith sep (sc_unread s) True = (advance, Some tok)"
    using sp t by (cases "sc_split s") (auto simp: scanTokens_def scanNumericTokens_def)
  then have "length (drop advance (sc_unread s)) < length (sc_unread s)"
    using * by blast
  then show ?thesis using sp t by (simp add: Scan_def)
qed

text \<open>
  The value \<open>CalculateScore\<close> returns after its loop, from the variable \<open>correct\<close>.
\<close>

definition scoreOf :: "bool \<Rightarrow> float64 \<times> error option" where
  "scoreOf correct = (if \<not> correct then (Finite 0, None) else (Finite 1, None))"

text \<open>
  The loop \<open>for correct { ... }\<close>. It is entered with \<open>correct\<close> true. A difference
  between \<open>expectedNext\<close> and \<open>contestantNext\<close> sets \<open>correct\<close> to false; the loop is
  left when the expected stream has ended; otherwise the \<open>switch\<close> assigns \<open>correct\<close>
  the result of comparing the two texts, and the loop goes on while it is true.
  Dereferencing a tolerance that is \<open>nil\<close> panics.
\<close>

function scoreLoop ::
  "(string \<Rightarrow> string \<Rightarrow> bool) \<Rightarrow> (string \<Rightarrow> float64 \<times> error option) \<Rightarrow> ValidatorSettings
     \<Rightarrow> Scanner \<Rightarrow> Scanner \<Rightarrow> panic + float64 \<times> error option" where
  "scoreLoop EqualFold ParseFloat settings expectedScanner contestantScanner =
     (let expectedNext = fst (Scan expectedScanner);
          contestantNext = fst (Scan contestantScanner);
          expectedText = sc_token (snd (Scan expectedScanner));
          contestantText = sc_token (snd (Scan contestantScanner));
          correct = (if expectedNext \<noteq> contestantNext then False else True)
      in if \<not> expectedNext then Inr (scoreOf correct)
         else if validator_Name settings = ''token'' then
           (if token expectedText contestantText
            then scoreLoop EqualFold ParseFloat settings
                   (snd (Scan expectedScanner)) (snd (Scan contestantScanner))
            else Inr (scoreOf False))
         else if validator_Name settings = ''token-caseless'' then
           (if tokenCaseless EqualFold expectedText contestantText
            then scoreLoop EqualFold ParseFloat settings
                   (snd (Scan expectedScanner)) (snd (Scan contestantScanner))
            else Inr (scoreOf False))
         else if validator_Name settings = ''token-numeric'' then
           (case validator_Tolerance settings of
              None \<Rightarrow> Inl NilDereference
            | Some tolerance \<Rightarrow>
                if tokenNumeric ParseFloat expectedText contestantText tolerance
                then scoreLoop EqualFold ParseFloat settings
                       (snd (Scan expectedScanner)) (snd (Scan contestantScanner))
                else Inr (scoreOf False))
         else Inr (Finite 0, Some (UnknownValidator (validator_Name settings))))"
  by pat_completeness auto
termination
  by (relation "measure (\<lambda>(EqualFold, ParseFloat, settings, expectedScanner, contestantScanner).
        length (sc_unread expectedScanner))")
     (auto intro: Scan_consumes)

declare scoreLoop.simps [simp del]

definition CalculateScore ::
  "(string \<Rightarrow> string \<Rightarrow> bool) \<Rightarrow> (string \<Rightarrow> float64 \<times> error option) \<Rightarrow> ValidatorSettings
     \<Rightarrow> string \<Rightarrow> string \<Rightarrow> panic + float64 \<times> error option" where
  "CalculateScore EqualFold ParseFloat settings contestantOutput expectedOutput =
     (let scanFunc = (if validator_Name settings = ''token-numeric''
                      then ScanNumericTokens else ScanTokens);
          contestantScanner = NewScanner contestantOutput scanFunc
      in if validator_Name settings = ''literal'' \<or> validator_Name settings = ''custom'' then
           (if \<not> fst (Scan contestantScanner) then Inr (Finite 0, Some ErrUnexpectedEOF)
            else Inr (fmax (Finite 0)
                        (fmin (Finite 1)
                           (fst (ParseFloat (sc_token (snd (Scan contestantScanner)))))),
                      snd (ParseFloat (sc_token (snd (Scan contestantScanner))))))
         else scoreLoop EqualFold ParseFloat settings
                (NewScanner expectedOutput scanFunc) contestantScanner)"

section \<open>Verifying a stored archive (Verify, grader/v1compat/input.go)\<close>

text \<open>
  What \<open>Verify\<close> finds on disk is its environment: what \<open>os.Stat\<close> and
  \<open>common.Sha1sum\<close> return for the archive (its size, the 20 bytes of its SHA-1), and the
  contents of the two sidecar files, each an error when the call fails or the file cannot
  be opened. \<open>actualUncompressedSize\<close> is the total size of the entries of the archive;
  no statement of \<open>Verify\<close> reads it.
\<close>

record cacheFiles =
  archiveStat :: "error + int"
  archiveSha1sum :: "error + string"
  sha1File :: "error + string"
  lenFile :: "error + string"
  actualUncompressedSize :: int

text \<open>
  \<open>graderBaseInput\<close>; \<open>committedSize\<close> is what \<open>input.Commit(stat.Size())\<close> records
  in the embedded \<open>common.BaseInput\<close>.
\<close>

record graderBaseInput =
  archivePath :: string
  storedHash :: string
  uncompressedSize :: int
  committedSize :: "int option"

text \<open>\<open>fmt.Sprintf("%0x", hash)\<close>: two lower-case hexadecimal digits for every byte.\<close>

definition hexDigit :: "nat \<Rightarrow> char" where
  "hexDigit n = ''0123456789abcdef'' ! n"

definition hex :: "string \<Rightarrow> string" where
  "hex bytes = concat (map (\<lambda>c. [hexDigit (of_char c div 16), hexDigit (of_char c mod 16)]) bytes)"

text \<open>
  \<open>bufio.ScanWords\<close> has the two loops of \<open>scanTokens\<close> with \<open>unicode.IsSpace\<close> as
  the test; \<open>bufio.ScanLines\<close> returns the bytes before the first newline, or all of them
  when there is none, without a trailing carriage return, and no token for empty data.
\<close>

definition ScanWords :: "string \<Rightarrow> bool \<Rightarrow> nat \<times> string option" where
  "ScanWords data atEOF = splitWith IsSpace data atEOF"

definition dropCR :: "string \<Rightarrow> string" where
  "dropCR data = (if data \<noteq> [] \<and> last data = CHR 0x0D then butlast data else data)"

definition ScanLines :: "string \<Rightarrow> bool \<Rightarrow> nat \<times> string option" where
  "ScanLines data atEOF =
     (if atEOF \<and> data = [] then (0, None)
      else if CHR 0x0A \<in> set data
        then (length (takeWhile (\<lambda>c. c \<noteq> CHR 0x0A) data) + 1,
              Some (dropCR (takeWhile (\<lambda>c. c \<noteq> CHR 0x0A) data)))
      else if atEOF then (length data, Some (dropCR data))
      else (0, None))"

text \<open>
  \<open>strconv.ParseInt(s, 10, 64)\<close>: an optional sign and decimal digits, read from the
  left; the first character that is not a digit is a syntax error, and a value outside
  the 64-bit range is a range error.
\<close>

fun parseUintLoop :: "string \<Rightarrow> int \<Rightarrow> error + int" where
  "parseUintLoop [] n = Inr n"
| "parseUintLoop (c # cs) n =
     (if \<not> isDigit c then Inl ErrSyntax
      else if (2 ^ 64 - 1) div 10 + 1 \<le> n then Inl ErrRange
      else if 2 ^ 64 - 1 < n * 10 + (int (of_char c) - 48) then Inl ErrRange
      else parseUintLoop cs (n * 10 + (int (of_char c) - 48)))"

definition ParseInt :: "string \<Rightarrow> error + int" where
  "ParseInt s =
     (if s = [] then Inl ErrSyntax
      else
        let negative = (hd s = CHR ''-'');
            digits = (if hd s = CHR ''+'' \<or> hd s = CHR ''-'' then tl s else s)
        in if digits = [] then Inl ErrSyntax
           else case parseUintLoop digits 0 of
                  Inl err \<Rightarrow> Inl err
                | Inr un \<Rightarrow>
                    if \<not> negative \<and> 2 ^ 63 \<le> un then Inl ErrRange
                    else if negative \<and> 2 ^ 63 < un then Inl ErrRange
                    else Inr (if negative then - un else un))"

text \<open>
  \<open>getStoredHash\<close> and \<open>getStoredLength\<close>: the first word of the \<open>.sha1\<close> file and the
  first line of the \<open>.len\<close> file as a number. A scanner that finds no token has met the
  end of the file, so the error is \<open>io.ErrUnexpectedEOF\<close>.
\<close>

definition getStoredHash :: "cacheFiles \<Rightarrow> error + string" where
  "getStoredHash files =
     (case sha1File files of
        Inl err \<Rightarrow> Inl err
      | Inr content \<Rightarrow>
          (case snd (ScanWords content True) of
             None \<Rightarrow> Inl ErrUnexpectedEOF
           | Some word \<Rightarrow> Inr word))"

definition getStoredLength :: "cacheFiles \<Rightarrow> error + int" where
  "getStoredLength files =
     (case lenFile files of
        Inl err \<Rightarrow> Inl err
      | Inr content \<Rightarrow>
          (case snd (ScanLines content True) of
             None \<Rightarrow> Inl ErrUnexpectedEOF
           | Some line \<Rightarrow> ParseInt line))"

definition Verify :: "cacheFiles \<Rightarrow> graderBaseInput \<Rightarrow> error + graderBaseInput" where
  "Verify files input =
     (case archiveStat files of
        Inl err \<Rightarrow> Inl err
      | Inr archiveSize \<Rightarrow>
          (case archiveSha1sum files of
             Inl err \<Rightarrow> Inl err
           | Inr hash \<Rightarrow>
               (case getStoredHash files of
                  Inl err \<Rightarrow> Inl err
                | Inr stored \<Rightarrow>
                    if stored \<noteq> hex hash then Inl HashVerificationFailed
                    else
                      (case getStoredLength files of
                         Inl err \<Rightarrow> Inl err
                       | Inr len \<Rightarrow>
                           Inr (input\<lparr>storedHash := stored, uncompressedSize := len,
                                  committedSize := Some archiveSize\<rparr>)))))"

section \<open>Broadcasting a finished run (broadcastRun, cmd/omegaup-grader/frontend_handler.go)\<close>

text \<open>
  \<open>base.RationalToFloat\<close> belongs to a library outside the repository; it returns the
  \<open>float64\<close> nearest to a \<open>big.Rat\<close>.
\<close>

definition RationalToFloat :: "rat \<Rightarrow> float64" where
  "RationalToFloat val = round64 val"

text \<open>
  The fields of \<open>grader.RunInfo\<close> that \<open>broadcastRun\<close> reads to fill the scores and the
  verdict, and the fields of the message it sends for them.
\<close>

record RunInfo =
  info_ID :: int
  info_GUID :: string
  info_PartialScore :: bool
  info_Score :: rat
  info_ContestScore :: rat
  info_Verdict :: string

record serializedRun =
  msg_User :: string
  msg_GUID :: string
  msg_Score :: float64
  msg_ContestScore :: float64
  msg_Status :: string
  msg_Verdict :: string

text \<open>
  \<open>broadcastRun\<close>. \<open>row\<close> is what the database query returns, an error or the name of
  the user. The result is the error returned, \<open>None\<close> when nothing is broadcast
  (an ephemeral run), or the run of the message handed to \<open>broadcast\<close>, whose own failure
  is only logged. \<open>json.Marshal\<close> fails when a score of the message is not finite.
\<close>

definition broadcastRun :: "error + string \<Rightarrow> RunInfo \<Rightarrow> error + serializedRun option" where
  "broadcastRun row run =
     (if info_ID run = 0 then Inr None
      else
        let score = RationalToFloat (info_Score run);
            contestScore = RationalToFloat (info_ContestScore run);
            zeroed = (\<not> info_PartialScore run \<and> score \<noteq> Finite 1);
            sentScore = (if zeroed then Finite 0 else score);
            sentContestScore = (if zeroed then Finite 0 else contestScore)
        in case row of
             Inl err \<Rightarrow> Inl err
           | Inr user \<Rightarrow>
               if isFinite sentScore \<and> isFinite sentContestScore
               then Inr (Some \<lparr>msg_User = user,
                                 msg_GUID = info_GUID run,
                                 msg_Score = sentScore,
                                 msg_ContestScore = sentContestScore,
                                 msg_Status = ''ready'',
                                 msg_Verdict = info_Verdict run\<rparr>)
               else Inl UnsupportedValue)"

section \<open>Checks of the rounding\<close>

text \<open>
  The binary64 numbers nearest to 1/10 and to -1/3, and two ties between neighbours, which
  go to the even significand.
\<close>

lemma round64_tenth: "round64 (1 / 10) = Finite (3602879701896397 / 2 ^ 55)"
  by code_simp

lemma round64_minus_third: "round64 (- 1 / 3) = Finite (- 6004799503160661 / 2 ^ 54)"
  by code_simp

lemma round64_ties:
  "round64 (2 ^ 53 + 1) = Finite (2 ^ 53) \<and> round64 (2 ^ 53 + 3) = Finite (2 ^ 53 + 4)"
  by code_simp

lemma fdiv_zero_zero: "fdiv (Finite 0) (Finite 0) = NaN"
  by simp

section \<open>Properties of the verdict comparator\<close>

lemma sliceIndex_loop_range:
  "0 \<le> i \<Longrightarrow> sliceIndex_loop i limit p = - 1 \<or>
     (i \<le> sliceIndex_loop i limit p \<and> sliceIndex_loop i limit p < limit)"
proof (induction i limit p rule: sliceIndex_loop.induct)
  case (1 i limit p)
  show ?case
  proof (cases "i < limit \<and> \<not> p i")
    case True
    then have "sliceIndex_loop i limit p = sliceIndex_loop (i + 1) limit p"
      by (subst sliceIndex_loop.simps) simp
    moreover have "sliceIndex_loop (i + 1) limit p = - 1 \<or>
        (i + 1 \<le> sliceIndex_loop (i + 1) limit p \<and> sliceIndex_loop (i + 1) limit p < limit)"
      using "1.IH" True "1.prems" by simp
    ultimately show ?thesis by auto
  next
    case False
    then show ?thesis by (subst (1 2 3) sliceIndex_loop.simps) auto
  qed
qed

lemma sliceIndex_loop_none:
  "0 \<le> i \<Longrightarrow> (sliceIndex_loop i limit p = - 1) = (\<forall>j. i \<le> j \<and> j < limit \<longrightarrow> \<not> p j)"
proof (induction i limit p rule: sliceIndex_loop.induct)
  case (1 i limit p)
  show ?case
  proof (cases "i < limit")
    case False
    then show ?thesis by (subst sliceIndex_loop.simps) auto
  next
    case lt: True
    show ?thesis
    proof (cases "p i")
      case True
      then have "sliceIndex_loop i limit p = i"
        using lt by (subst sliceIndex_loop.simps) simp
      then show ?thesis using True lt "1.prems" by auto
    next
      case False
      then have eq: "sliceIndex_loop i limit p = sliceIndex_loop (i + 1) limit p"
        using lt by (subst sliceIndex_loop.simps) simp
      have "(sliceIndex_loop (i + 1) limit p = - 1) =
          (\<forall>j. i + 1 \<le> j \<and> j < limit \<longrightarrow> \<not> p j)"
        using "1.IH" lt False "1.prems" by simp
      moreover have "(\<forall>j. i + 1 \<le> j \<and> j < limit \<longrightarrow> \<not> p j) =
          (\<forall>j. i \<le> j \<and> j < limit \<longrightarrow> \<not> p j)"
      proof -
        have "i \<le> j \<longleftrightarrow> j = i \<or> i + 1 \<le> j" for j by arith
        then show ?thesis using False by auto
      qed
      ultimately show ?thesis using eq by simp
    qed
  qed
qed

lemma sliceIndex_none_iff:
  "(sliceIndex (int (length vl)) (\<lambda>i. vl ! nat i = a) = - 1) = (a \<notin> set vl)"
proof -
  have "(\<forall>j. 0 \<le> j \<and> j < int (length vl) \<longrightarrow> vl ! nat j \<noteq> a) = (a \<notin> set vl)"
  proof
    assume h: "\<forall>j. 0 \<le> j \<and> j < int (length vl) \<longrightarrow> vl ! nat j \<noteq> a"
    show "a \<notin> set vl"
    proof
      assume "a \<in> set vl"
      then obtain k where "k < length vl" "vl ! k = a" by (auto simp: in_set_conv_nth)
      then show False using h [rule_format, of "int k"] by simp
    qed
  next
    assume "a \<notin> set vl"
    moreover have "nat j < length vl" if "0 \<le> j" "j < int (length vl)" for j
      using that by simp
    ultimately show "\<forall>j. 0 \<le> j \<and> j < int (length vl) \<longrightarrow> vl ! nat j \<noteq> a"
      using nth_mem by blast
  qed
  then show ?thesis
    unfolding sliceIndex_def using sliceIndex_loop_none [of 0 "int (length vl)"] by simp
qed

lemma sliceIndex_range:
  "sliceIndex limit p = - 1 \<or> (0 \<le> sliceIndex limit p \<and> sliceIndex limit p < limit)"
  unfolding sliceIndex_def using sliceIndex_loop_range [of 0 limit p] by simp

lemma sliceIndex_loop_sat:
  "sliceIndex_loop i limit p \<noteq> - 1 \<Longrightarrow> 0 \<le> i \<Longrightarrow> p (sliceIndex_loop i limit p)"
proof (induction i limit p rule: sliceIndex_loop.induct)
  case (1 i limit p)
  show ?case
  proof (cases "i < limit")
    case False
    then have "sliceIndex_loop i limit p = - 1" by (subst sliceIndex_loop.simps) simp
    with "1.prems" show ?thesis by simp
  next
    case lt: True
    show ?thesis
    proof (cases "p i")
      case True
      then have "sliceIndex_loop i limit p = i" using lt by (subst sliceIndex_loop.simps) simp
      with True show ?thesis by simp
    next
      case False
      then have eq: "sliceIndex_loop i limit p = sliceIndex_loop (i + 1) limit p"
        using lt by (subst sliceIndex_loop.simps) simp
      with "1.IH" [OF lt False] "1.prems" show ?thesis by simp
    qed
  qed
qed

lemma worseVerdict_same:
  assumes "a \<in> set vl"
  shows "worseVerdict vl a a = Inr a"
proof -
  let ?p = "\<lambda>i. vl ! nat i = a"
  let ?k = "sliceIndex (int (length vl)) ?p"
  have ne: "?k \<noteq> - 1" using assms by (simp add: sliceIndex_none_iff)
  then have range: "0 \<le> ?k \<and> ?k < int (length vl)"
    using sliceIndex_range [of "int (length vl)" ?p] by auto
  have "?p ?k" using sliceIndex_loop_sat [of 0 "int (length vl)" ?p] ne
    unfolding sliceIndex_def by simp
  then show ?thesis using range
    by (simp add: worseVerdict_def min_int_def index_string_def)
qed

lemma worseVerdict_panics:
  "(worseVerdict vl a b = Inl IndexOutOfRange) = (a \<notin> set vl \<or> b \<notin> set vl)"
proof -
  let ?ia = "sliceIndex (int (length vl)) (\<lambda>i. vl ! nat i = a)"
  let ?ib = "sliceIndex (int (length vl)) (\<lambda>i. vl ! nat i = b)"
  have ra: "?ia = - 1 \<or> (0 \<le> ?ia \<and> ?ia < int (length vl))" by (rule sliceIndex_range)
  have rb: "?ib = - 1 \<or> (0 \<le> ?ib \<and> ?ib < int (length vl))" by (rule sliceIndex_range)
  have "(worseVerdict vl a b = Inl IndexOutOfRange) = (?ia = - 1 \<or> ?ib = - 1)"
    using ra rb by (auto simp: worseVerdict_def Let_def min_int_def index_string_def)
  then show ?thesis by (simp add: sliceIndex_none_iff)
qed

text \<open>
  Claim C9. \<open>worseVerdict\<close> is not total over arbitrary strings. For an argument that is
  not an element of the verdict list, \<open>sliceIndex\<close> returns \<open>-1\<close>; the list is then
  indexed at \<open>-1\<close>, so the call panics with an index out of range exactly when one of the
  two arguments is not in the list, and it returns a verdict when both are. This holds for
  every content of the list.
\<close>

theorem worseVerdict_not_total:
  "(a \<notin> set vl \<longrightarrow> sliceIndex (int (length vl)) (\<lambda>i. vl ! nat i = a) = - 1) \<and>
   ((worseVerdict vl a b = Inl IndexOutOfRange) = (a \<notin> set vl \<or> b \<notin> set vl)) \<and>
   (a \<in> set vl \<and> b \<in> set vl \<longrightarrow> (\<exists>v. worseVerdict vl a b = Inr v))"
proof (intro conjI impI)
  assume "a \<notin> set vl"
  then show "sliceIndex (int (length vl)) (\<lambda>i. vl ! nat i = a) = - 1"
    by (simp add: sliceIndex_none_iff)
next
  show "(worseVerdict vl a b = Inl IndexOutOfRange) = (a \<notin> set vl \<or> b \<notin> set vl)"
    by (rule worseVerdict_panics)
next
  assume "a \<in> set vl \<and> b \<in> set vl"
  then have "worseVerdict vl a b \<noteq> Inl IndexOutOfRange" by (simp add: worseVerdict_panics)
  then show "\<exists>v. worseVerdict vl a b = Inr v"
    by (cases "worseVerdict vl a b") (auto intro: panic.exhaust simp: worseVerdict_def index_string_def Let_def split: if_splits)
qed

theorem worseVerdict_not_total_witness:
  "'''' \<notin> set VerdictList \<and>
   sliceIndex (int (length VerdictList)) (\<lambda>i. VerdictList ! nat i = '''') = - 1 \<and>
   worseVerdict VerdictList '''' ''AC'' = Inl IndexOutOfRange \<and>
   worseVerdict VerdictList ''AC'' ''acc'' = Inl IndexOutOfRange \<and>
   ''WA'' \<in> set VerdictList \<and> ''AC'' \<in> set VerdictList \<and>
   (\<exists>v. worseVerdict VerdictList ''WA'' ''AC'' = Inr v)"
  using worseVerdict_not_total [of "''''" VerdictList "''AC''"]
    worseVerdict_not_total [of "''AC''" VerdictList "''acc''"]
    worseVerdict_not_total [of "''WA''" VerdictList "''AC''"]
  by (simp add: VerdictList_def)

lemma VerdictList_members:
  "a \<in> set VerdictList \<longleftrightarrow>
     a = ''JE'' \<or> a = ''CE'' \<or> a = ''RTE'' \<or> a = ''OLE'' \<or> a = ''MLE'' \<or>
     a = ''TLE'' \<or> a = ''OK'' \<or> a = ''WA'' \<or> a = ''PA'' \<or> a = ''AC''"
  by (simp add: VerdictList_def)

lemma sliceIndex_VerdictList:
  "a \<in> set VerdictList \<Longrightarrow>
   sliceIndex (int (length VerdictList)) (\<lambda>i. VerdictList ! nat i = a) = 9 - int (severity a)"
  unfolding VerdictList_members
  by (elim disjE; simp add: sliceIndex_def sliceIndex_loop.simps VerdictList_def severity_def
        verdictOrder_def)

lemma severity_inj:
  "a \<in> set VerdictList \<Longrightarrow> b \<in> set VerdictList \<Longrightarrow> severity a = severity b \<Longrightarrow> a = b"
  unfolding VerdictList_members
  by (elim disjE; simp add: severity_def verdictOrder_def)

lemma index_VerdictList:
  "a \<in> set VerdictList \<Longrightarrow> index_string VerdictList (9 - int (severity a)) = Inr a"
  unfolding VerdictList_members
  by (elim disjE; simp add: index_string_def VerdictList_def severity_def verdictOrder_def)

lemma worseVerdict_VerdictList:
  assumes "a \<in> set VerdictList" "b \<in> set VerdictList"
  shows "worseVerdict VerdictList a b = Inr (if severity a \<le> severity b then b else a)"
proof -
  have "min_int (9 - int (severity a)) (9 - int (severity b)) =
      (if severity a \<le> severity b then 9 - int (severity b) else 9 - int (severity a))"
    using severity_inj [OF assms] by (auto simp: min_int_def)
  then show ?thesis
    using assms by (simp add: worseVerdict_def sliceIndex_VerdictList index_VerdictList)
qed

text \<open>
  Claim C7. For all verdicts \<open>a\<close>, \<open>b\<close>, \<open>c\<close> of the verdict list, \<open>worseVerdict\<close>
  is commutative, associative and idempotent, returns the greater of its two arguments in the
  order \<open>AC < PA < WA < OK < TLE < MLE < OLE < RTE < CE < JE\<close> (so it is monotone along that
  order), and merging any verdict with \<open>JE\<close> gives \<open>JE\<close>. \<open>severity\<close> is the position
  in that order; the last conjuncts pin it.
\<close>

theorem worseVerdict_order:
  assumes a: "a \<in> set VerdictList" and b: "b \<in> set VerdictList" and c: "c \<in> set VerdictList"
  shows "worseVerdict VerdictList a b = worseVerdict VerdictList b a \<and>
    (\<exists>ab bc. worseVerdict VerdictList a b = Inr ab \<and> worseVerdict VerdictList b c = Inr bc \<and>
       worseVerdict VerdictList ab c = worseVerdict VerdictList a bc) \<and>
    worseVerdict VerdictList a a = Inr a \<and>
    worseVerdict VerdictList a b = Inr (if severity a \<le> severity b then b else a) \<and>
    (severity a \<le> severity b \<longrightarrow>
       (\<exists>x y. worseVerdict VerdictList a c = Inr x \<and> worseVerdict VerdictList b c = Inr y \<and>
          severity x \<le> severity y)) \<and>
    worseVerdict VerdictList a ''JE'' = Inr ''JE'' \<and>
    set VerdictList = set verdictOrder \<and> severity ''AC'' < severity ''PA'' \<and> severity ''PA'' < severity ''WA'' \<and>
    severity ''WA'' < severity ''OK'' \<and> severity ''OK'' < severity ''TLE'' \<and> severity ''TLE'' < severity ''MLE'' \<and>
    severity ''MLE'' < severity ''OLE'' \<and> severity ''OLE'' < severity ''RTE'' \<and> severity ''RTE'' < severity ''CE'' \<and>
    severity ''CE'' < severity ''JE''"
proof -
  let ?w = "\<lambda>x y. if severity x \<le> severity y then y else x"
  have mem: "?w x y \<in> set VerdictList" if "x \<in> set VerdictList" "y \<in> set VerdictList" for x y
    using that by simp
  have comm: "worseVerdict VerdictList a b = worseVerdict VerdictList b a"
    using severity_inj [OF a b] by (auto simp: worseVerdict_VerdictList a b)
  have assoc: "worseVerdict VerdictList (?w a b) c = worseVerdict VerdictList a (?w b c)"
    using severity_inj [OF a b] severity_inj [OF b c] severity_inj [OF a c]
    by (auto simp: worseVerdict_VerdictList a b c)
  have idem: "worseVerdict VerdictList a a = Inr a"
    by (simp add: worseVerdict_VerdictList a)
  have mono: "severity (?w a c) \<le> severity (?w b c)" if "severity a \<le> severity b"
    using that by auto
  have je: "''JE'' \<in> set VerdictList" by (simp add: VerdictList_def)
  have top: "severity a \<le> severity ''JE''"
    using a unfolding VerdictList_members by (elim disjE; simp add: severity_def verdictOrder_def)
  have worst: "worseVerdict VerdictList a ''JE'' = Inr ''JE''"
    using top by (simp add: worseVerdict_VerdictList a je)
  have sets: "set VerdictList = set verdictOrder"
    by (auto simp: VerdictList_def verdictOrder_def)
  have chain: "severity ''AC'' < severity ''PA'' \<and> severity ''PA'' < severity ''WA'' \<and>
    severity ''WA'' < severity ''OK'' \<and> severity ''OK'' < severity ''TLE'' \<and> severity ''TLE'' < severity ''MLE'' \<and>
    severity ''MLE'' < severity ''OLE'' \<and> severity ''OLE'' < severity ''RTE'' \<and> severity ''RTE'' < severity ''CE'' \<and>
    severity ''CE'' < severity ''JE''"
    by (simp add: severity_def verdictOrder_def)
  have assoc': "\<exists>ab bc. worseVerdict VerdictList a b = Inr ab \<and>
      worseVerdict VerdictList b c = Inr bc \<and>
      worseVerdict VerdictList ab c = worseVerdict VerdictList a bc"
    using assoc worseVerdict_VerdictList [OF a b] worseVerdict_VerdictList [OF b c] by blast
  have greater: "worseVerdict VerdictList a b = Inr (if severity a \<le> severity b then b else a)"
    by (rule worseVerdict_VerdictList [OF a b])
  have mono': "severity a \<le> severity b \<longrightarrow>
       (\<exists>x y. worseVerdict VerdictList a c = Inr x \<and> worseVerdict VerdictList b c = Inr y \<and>
          severity x \<le> severity y)"
    using mono worseVerdict_VerdictList [OF a c] worseVerdict_VerdictList [OF b c] by blast
  show ?thesis
    using comm assoc' idem greater mono' worst sets chain by blast
qed

theorem worseVerdict_order_witness:
  "''WA'' \<in> set VerdictList \<and> ''TLE'' \<in> set VerdictList \<and> ''AC'' \<in> set VerdictList \<and>
   worseVerdict VerdictList ''WA'' ''TLE'' = Inr ''TLE'' \<and>
   worseVerdict VerdictList ''WA'' ''TLE'' = worseVerdict VerdictList ''TLE'' ''WA'' \<and>
   worseVerdict VerdictList ''WA'' ''WA'' = Inr ''WA'' \<and>
   worseVerdict VerdictList ''WA'' ''JE'' = Inr ''JE''"
proof -
  have m: "''WA'' \<in> set VerdictList" "''TLE'' \<in> set VerdictList" "''AC'' \<in> set VerdictList"
    by (simp_all add: VerdictList_def)
  have s: "severity ''WA'' \<le> severity ''TLE''" by (simp add: severity_def verdictOrder_def)
  show ?thesis
    using worseVerdict_order [OF m(1) m(2) m(3)] m s by auto
qed

text \<open>
  A consequence of the order above for \<open>Grade\<close>, which worsens the verdict of a run with
  \<open>PA\<close> when a case does not score 1: since \<open>OK\<close> is worse than \<open>PA\<close> there, a run
  whose verdict is \<open>OK\<close> keeps it.
\<close>

lemma worseVerdict_OK_PA: "worseVerdict VerdictList ''OK'' ''PA'' = Inr ''OK''"
proof -
  have "''OK'' \<in> set VerdictList" "''PA'' \<in> set VerdictList"
    by (simp_all add: VerdictList_def)
  then show ?thesis
    by (simp add: worseVerdict_VerdictList severity_def verdictOrder_def)
qed

section \<open>Properties of the interactive reconciliation\<close>

lemma Grade_collect_append:
  "Grade_collect vl (xs @ ys) st =
     (case Grade_collect vl xs st of Inl e \<Rightarrow> Inl e | Inr st' \<Rightarrow> Grade_collect vl ys st')"
  by (induction xs arbitrary: st) (auto simp: Let_def split: sum.splits)

lemma Grade_collect_all_OK:
  assumes "''OK'' \<in> set vl"
    and "\<forall>r \<in> set rs. irr_binaryType r \<noteq> binaryProblemsetter \<and>
           meta_Verdict (irr_runMeta r) = ''OK''"
    and "finalVerdict st = ''OK''"
  shows "Grade_collect vl rs st = Inr st"
  using assms(2,3)
proof (induction rs)
  case Nil
  then show ?case by simp
next
  case (Cons r rs)
  have w: "worseVerdict vl ''OK'' ''OK'' = Inr ''OK''"
    using assms(1) by (rule worseVerdict_same)
  have eq: "st\<lparr>finalVerdict := ''OK''\<rparr> = st"
    using Cons.prems(2) by simp
  have "Grade_collect vl (r # rs) st = Grade_collect vl rs (st\<lparr>finalVerdict := ''OK''\<rparr>)"
    using Cons.prems w by simp
  also have "\<dots> = Grade_collect vl rs st"
    by (simp only: eq)
  also have "\<dots> = Inr st"
    using Cons.IH Cons.prems by simp
  finally show ?case .
qed

text \<open>
  Claim C6. In an interactive case in which every contestant binary reports \<open>OK\<close> and the
  problemsetter (parent) binary \<open>p\<close> does not, in whatever order the results arrive, the
  verdict of the case is decided by the parent's metadata: \<open>OLE\<close> for a parent verdict
  \<open>OLE\<close>, \<open>TLE\<close> for \<open>TLE\<close>; otherwise \<open>RTE\<close> for an exit status 239, 240, 241 or
  242 or for the signal \<open>SIGPIPE\<close>; otherwise \<open>JE\<close>. The verdict list only has to
  contain \<open>OK\<close>.
\<close>

theorem interactive_parent_failure:
  assumes ok: "''OK'' \<in> set vl"
    and contestants: "\<forall>r \<in> set (before @ after).
          irr_binaryType r \<noteq> binaryProblemsetter \<and> meta_Verdict (irr_runMeta r) = ''OK''"
    and parent: "irr_binaryType p = binaryProblemsetter"
    and failed: "meta_Verdict (irr_runMeta p) \<noteq> ''OK''"
  shows "\<exists>m. Grade_case vl (before @ p # after) = Inr m \<and>
    (meta_Verdict (irr_runMeta p) = ''OLE'' \<longrightarrow> meta_Verdict m = ''OLE'') \<and>
    (meta_Verdict (irr_runMeta p) = ''TLE'' \<longrightarrow> meta_Verdict m = ''TLE'') \<and>
    (meta_Verdict (irr_runMeta p) \<noteq> ''OLE'' \<and> meta_Verdict (irr_runMeta p) \<noteq> ''TLE'' \<and>
       (meta_ExitStatus (irr_runMeta p) \<in> {239, 240, 241, 242} \<or>
        meta_Signal (irr_runMeta p) = Some ''SIGPIPE'') \<longrightarrow> meta_Verdict m = ''RTE'') \<and>
    (meta_Verdict (irr_runMeta p) \<noteq> ''OLE'' \<and> meta_Verdict (irr_runMeta p) \<noteq> ''TLE'' \<and>
       meta_ExitStatus (irr_runMeta p) \<notin> {239, 240, 241, 242} \<and>
       meta_Signal (irr_runMeta p) \<noteq> Some ''SIGPIPE'' \<longrightarrow> meta_Verdict m = ''JE'')"
proof -
  let ?st = "collectInit\<lparr>parentMetadata := Some (irr_runMeta p)\<rparr>"
  have b: "Grade_collect vl before collectInit = Inr collectInit"
    using contestants by (intro Grade_collect_all_OK [OF ok]) (auto simp: collectInit_def)
  have a: "Grade_collect vl after ?st = Inr ?st"
    using contestants by (intro Grade_collect_all_OK [OF ok]) (auto simp: collectInit_def)
  have "Grade_collect vl (before @ p # after) collectInit = Inr ?st"
    using a b parent by (simp add: Grade_collect_append)
  then have "Grade_case vl (before @ p # after) =
      Inr (Grade_reconcile (Some (irr_runMeta p))
        \<lparr>meta_Verdict = ''OK'', meta_ExitStatus = 0, meta_Signal = None\<rparr>)"
    by (simp add: Grade_case_def collectInit_def)
  then show ?thesis
    using failed by (auto simp: Grade_reconcile_def)
qed

theorem interactive_parent_failure_witness:
  "\<exists>m. Grade_case VerdictList
     [\<lparr>irr_name = ''sums'',
       irr_runMeta = \<lparr>meta_Verdict = ''OK'', meta_ExitStatus = 0, meta_Signal = None\<rparr>,
       irr_binaryType = binaryContestant\<rparr>,
      \<lparr>irr_name = ''Main'',
       irr_runMeta = \<lparr>meta_Verdict = ''RTE'', meta_ExitStatus = 0, meta_Signal = Some ''SIGPIPE''\<rparr>,
       irr_binaryType = binaryProblemsetter\<rparr>]
   = Inr m \<and> meta_Verdict m = ''RTE''"
proof -
  let ?c = "\<lparr>irr_name = ''sums'',
       irr_runMeta = \<lparr>meta_Verdict = ''OK'', meta_ExitStatus = 0, meta_Signal = None\<rparr>,
       irr_binaryType = binaryContestant\<rparr>"
  let ?p = "\<lparr>irr_name = ''Main'',
       irr_runMeta = \<lparr>meta_Verdict = ''RTE'', meta_ExitStatus = 0, meta_Signal = Some ''SIGPIPE''\<rparr>,
       irr_binaryType = binaryProblemsetter\<rparr>"
  have ok: "''OK'' \<in> set VerdictList" by (simp add: VerdictList_def)
  have cs: "\<forall>r \<in> set ([?c] @ []).
          irr_binaryType r \<noteq> binaryProblemsetter \<and> meta_Verdict (irr_runMeta r) = ''OK''"
    by simp
  have p: "irr_binaryType ?p = binaryProblemsetter" by simp
  have f: "meta_Verdict (irr_runMeta ?p) \<noteq> ''OK''" by simp
  from interactive_parent_failure [OF ok cs p f]
  obtain m where m: "Grade_case VerdictList ([?c] @ ?p # []) = Inr m"
    and v: "meta_Verdict m = ''RTE''" by auto
  have "Grade_case VerdictList [?c, ?p] = Inr m" using m by simp
  with v show ?thesis by blast
qed

section \<open>Properties of the weights\<close>

lemma foldl_case_Weight:
  "foldl (\<lambda>t caseData. t + case_Weight caseData) acc cs = acc + sum_list (map case_Weight cs)"
  by (induction cs arbitrary: acc) simp_all

lemma sumCaseWeights_foldl:
  "foldl (\<lambda>total grp. foldl (\<lambda>t caseData. t + case_Weight caseData) total (group_Cases grp))
     acc groups
   = acc + sum_list (map (\<lambda>grp. sum_list (map case_Weight (group_Cases grp))) groups)"
  by (induction groups arbitrary: acc) (simp_all add: foldl_case_Weight)

lemma sumCaseWeights_sum_list:
  "sumCaseWeights groups = sum_list (map (\<lambda>grp. sum_list (map case_Weight (group_Cases grp))) groups)"
  by (simp add: sumCaseWeights_def sumCaseWeights_foldl)

lemma sum_list_scaled:
  "sum_list (map (normalizedWeight f) cs) = sum_list (map case_Weight cs) * f"
  by (induction cs) (simp_all add: normalizedWeight_def algebra_simps)

lemma sum_list_groups_scaled:
  "sum_list (map (\<lambda>grp. sum_list (map case_Weight (group_Cases grp)) * f) groups) =
   sum_list (map (\<lambda>grp. sum_list (map case_Weight (group_Cases grp))) groups) * f"
  by (induction groups) (simp_all add: algebra_simps)

text \<open>
  Claim C1, as amended. For every problem whose case weights have a positive sum \<open>W\<close>, the
  factors \<open>weight(c) \<times> (1 / W)\<close> by which \<open>Grade\<close> scales the cases, computed in exact
  rational arithmetic, are the normalised weights \<open>weight(c) / W\<close> and sum to exactly 1 over
  all groups.
\<close>

theorem Grade_normalized_weights_sum:
  assumes "0 < sumCaseWeights groups"
  shows "\<exists>ws. normalizedWeights groups = Inr ws \<and> sum_list (map sum_list ws) = 1 \<and>
     ws = map (\<lambda>grp. map (\<lambda>c. case_Weight c / sumCaseWeights groups) (group_Cases grp)) groups"
proof -
  let ?W = "sumCaseWeights groups"
  have f: "totalWeightFactor groups = Inr (1 / ?W)"
    using assms by (simp add: totalWeightFactor_def rat_Quo_def Let_def)
  let ?ws = "map (\<lambda>grp. map (normalizedWeight (1 / ?W)) (group_Cases grp)) groups"
  have n: "normalizedWeights groups = Inr ?ws"
    by (simp add: normalizedWeights_def f)
  have "sum_list (map sum_list ?ws) =
      sum_list (map (\<lambda>grp. sum_list (map case_Weight (group_Cases grp)) * (1 / ?W)) groups)"
    by (simp add: comp_def sum_list_scaled)
  also have "\<dots> = ?W * (1 / ?W)"
    by (simp only: sum_list_groups_scaled sumCaseWeights_sum_list)
  also have "\<dots> = 1" using assms by simp
  finally have s: "sum_list (map sum_list ?ws) = 1" .
  have "?ws = map (\<lambda>grp. map (\<lambda>c. case_Weight c / ?W) (group_Cases grp)) groups"
    by (simp add: normalizedWeight_def)
  with n s show ?thesis by simp
qed

theorem Grade_normalized_weights_sum_witness:
  "0 < sumCaseWeights
         [\<lparr>group_Name = ''easy'', group_Cases =
             [\<lparr>case_Name = ''easy.1'', case_Weight = 1\<rparr>, \<lparr>case_Name = ''easy.2'', case_Weight = 1\<rparr>]\<rparr>,
          \<lparr>group_Name = ''hard'', group_Cases = [\<lparr>case_Name = ''hard.1'', case_Weight = 1\<rparr>]\<rparr>] \<and>
   normalizedWeights
         [\<lparr>group_Name = ''easy'', group_Cases =
             [\<lparr>case_Name = ''easy.1'', case_Weight = 1\<rparr>, \<lparr>case_Name = ''easy.2'', case_Weight = 1\<rparr>]\<rparr>,
          \<lparr>group_Name = ''hard'', group_Cases = [\<lparr>case_Name = ''hard.1'', case_Weight = 1\<rparr>]\<rparr>]
     = Inr [[1 / 3, 1 / 3], [1 / 3]] \<and>
   sum_list (map sum_list [[1 / 3, 1 / 3], [1 / 3 :: rat]]) = 1"
proof -
  let ?g = "[\<lparr>group_Name = ''easy'', group_Cases =
             [\<lparr>case_Name = ''easy.1'', case_Weight = 1\<rparr>, \<lparr>case_Name = ''easy.2'', case_Weight = 1\<rparr>]\<rparr>,
          \<lparr>group_Name = ''hard'', group_Cases = [\<lparr>case_Name = ''hard.1'', case_Weight = 1\<rparr>]\<rparr>]"
  have W: "sumCaseWeights ?g = 3" by (simp add: sumCaseWeights_def)
  then have pos: "0 < sumCaseWeights ?g" by simp
  from Grade_normalized_weights_sum [OF pos] W show ?thesis by simp
qed

text \<open>
  Claim C5, as amended. When the total \<open>W\<close> of the case weights is not positive, \<open>Grade\<close>
  takes 1 as the normalising factor and leaves every case weight as it is; in every case the
  factor is defined and positive, so \<open>Grade\<close> never divides by a total that is not
  positive.
\<close>

theorem Grade_weight_guard:
  "(sumCaseWeights groups \<le> 0 \<longrightarrow>
      totalWeightFactor groups = Inr 1 \<and>
      normalizedWeights groups = Inr (map (\<lambda>grp. map case_Weight (group_Cases grp)) groups)) \<and>
   (\<exists>f. totalWeightFactor groups = Inr f \<and> 0 < f)"
  by (auto simp: totalWeightFactor_def normalizedWeights_def normalizedWeight_def rat_Quo_def Let_def)

theorem Grade_weight_guard_witness:
  "sumCaseWeights [\<lparr>group_Name = ''g'', group_Cases =
       [\<lparr>case_Name = ''g.a'', case_Weight = 0\<rparr>, \<lparr>case_Name = ''g.b'', case_Weight = 0\<rparr>]\<rparr>] \<le> 0 \<and>
   totalWeightFactor [\<lparr>group_Name = ''g'', group_Cases =
       [\<lparr>case_Name = ''g.a'', case_Weight = 0\<rparr>, \<lparr>case_Name = ''g.b'', case_Weight = 0\<rparr>]\<rparr>] = Inr 1"
  using Grade_weight_guard [of "[\<lparr>group_Name = ''g'', group_Cases =
       [\<lparr>case_Name = ''g.a'', case_Weight = 0\<rparr>, \<lparr>case_Name = ''g.b'', case_Weight = 0\<rparr>]\<rparr>]"]
  by (simp add: sumCaseWeights_def)

text \<open>
  Claim C5 as stated fails. In \<open>Grade\<close>, with two cases of weight 0 the total is 0 and
  the normalised weights are 0 and 0, not the 1 and 1 that replacing each weight by 1 would
  give. \<open>CreateArchiveFromGit\<close> has no test of the total: for the same two cases it
  divides 0 by 0, every weight is a NaN, and marshalling the settings fails.
\<close>

theorem zero_total_weight_counterexample:
  "sumCaseWeights [\<lparr>group_Name = ''g'', group_Cases =
       [\<lparr>case_Name = ''g.a'', case_Weight = 0\<rparr>, \<lparr>case_Name = ''g.b'', case_Weight = 0\<rparr>]\<rparr>] \<le> 0 \<and>
   normalizedWeights [\<lparr>group_Name = ''g'', group_Cases =
       [\<lparr>case_Name = ''g.a'', case_Weight = 0\<rparr>, \<lparr>case_Name = ''g.b'', case_Weight = 0\<rparr>]\<rparr>]
     = Inr [[0, 0]] \<and>
   normalizedWeights [\<lparr>group_Name = ''g'', group_Cases =
       [\<lparr>case_Name = ''g.a'', case_Weight = 0\<rparr>, \<lparr>case_Name = ''g.b'', case_Weight = 0\<rparr>]\<rparr>]
     \<noteq> Inr [[1, 1]] \<and>
   totalWeight [(''g.a'', Finite 0), (''g.b'', Finite 0)] = Finite 0 \<and>
   generateCases [(''g.a'', Finite 0), (''g.b'', Finite 0)] =
     [\<lparr>v1group_Cases = [\<lparr>v1case_Name = ''g.a'', v1case_Weight = NaN\<rparr>,
                         \<lparr>v1case_Name = ''g.b'', v1case_Weight = NaN\<rparr>],
       v1group_Name = ''g'', v1group_Weight = NaN\<rparr>] \<and>
   CreateArchiveFromGit
     (Inr \<lparr>settings_Validator = \<lparr>validator_Name = ''token'', validator_Tolerance = None\<rparr>,
           settings_Cases = []\<rparr>)
     (Inr [(''g.a'', Finite 0), (''g.b'', Finite 0)]) = Inl UnsupportedValue"
  by code_simp

text \<open>
  Claim C1 as stated fails for \<open>CreateArchiveFromGit\<close>, which computes in \<open>float64\<close>.
  For six cases \<open>t.1\<close>, ..., \<open>t.6\<close> of weight 1 the total is 6, every normalised weight
  is the binary64 number nearest to 1/6, and the weight of the only group, the sum the
  function itself accumulates, is \<open>1 - 2^-53\<close>; the exact sum of the six weights is not 1
  either.
\<close>

theorem CreateArchiveFromGit_float_weights_counterexample:
  "map (\<lambda>g. (v1group_Name g, v1group_Weight g, map v1case_Weight (v1group_Cases g)))
     (generateCases
        [(''t.1'', Finite 1), (''t.2'', Finite 1), (''t.3'', Finite 1),
         (''t.4'', Finite 1), (''t.5'', Finite 1), (''t.6'', Finite 1)])
   = [(''t'', Finite (9007199254740991 / 2 ^ 53),
       [Finite (6004799503160661 / 2 ^ 55), Finite (6004799503160661 / 2 ^ 55),
        Finite (6004799503160661 / 2 ^ 55), Finite (6004799503160661 / 2 ^ 55),
        Finite (6004799503160661 / 2 ^ 55), Finite (6004799503160661 / 2 ^ 55)])] \<and>
   (9007199254740991 / 2 ^ 53 :: rat) \<noteq> 1 \<and>
   (6 * (6004799503160661 / 2 ^ 55) :: rat) \<noteq> 1"
  by code_simp

lemma tolerance_default: "round64 (1 / 10 ^ 6) = Finite (4722366482869645 / 2 ^ 72)"
  by code_simp

text \<open>
  Claim C4 as stated fails: settings loaded with the validator \<open>token-numeric\<close> and a
  tolerance of \<open>1e-3\<close> come back with the tolerance \<open>1e-6\<close>.
\<close>

theorem setTolerance_overwrites_counterexample:
  "CreateArchiveFromGit
     (Inr \<lparr>settings_Validator =
             \<lparr>validator_Name = ''token-numeric'', validator_Tolerance = Some (round64 (1 / 10 ^ 3))\<rparr>,
           settings_Cases = []\<rparr>)
     (Inr [(''sample'', Finite 1)])
   = Inr \<lparr>settings_Validator =
             \<lparr>validator_Name = ''token-numeric'', validator_Tolerance = Some (round64 (1 / 10 ^ 6))\<rparr>,
           settings_Cases =
             [\<lparr>v1group_Cases = [\<lparr>v1case_Name = ''sample'', v1case_Weight = Finite 1\<rparr>],
               v1group_Name = ''sample'', v1group_Weight = Finite 1\<rparr>]\<rparr> \<and>
   round64 (1 / 10 ^ 3) = Finite (2305843009213694 / 2 ^ 61) \<and>
   round64 (1 / 10 ^ 6) = Finite (4722366482869645 / 2 ^ 72) \<and>
   round64 (1 / 10 ^ 6) \<noteq> round64 (1 / 10 ^ 3)"
  by code_simp

text \<open>
  Claim C4, as amended. When \<open>CreateArchiveFromGit\<close> loads settings whose validator is
  \<open>token-numeric\<close>, the settings it returns have the tolerance \<open>1e-6\<close>, whether or not a
  tolerance was present; for every other validator the tolerance is returned unchanged.
\<close>

theorem CreateArchiveFromGit_tolerance:
  "CreateArchiveFromGit (Inr settings) (Inr raw) = Inr settings' \<Longrightarrow>
   validator_Tolerance (settings_Validator settings') =
     (if validator_Name (settings_Validator settings) = ''token-numeric''
      then Some (round64 (1 / 10 ^ 6))
      else validator_Tolerance (settings_Validator settings))"
  by (auto simp: CreateArchiveFromGit_def setTolerance_def Let_def split: if_splits)


theorem CreateArchiveFromGit_tolerance_witness:
  "CreateArchiveFromGit
     (Inr \<lparr>settings_Validator = \<lparr>validator_Name = ''token-numeric'', validator_Tolerance = None\<rparr>,
           settings_Cases = []\<rparr>)
     (Inr [(''sample'', Finite 1)])
   = Inr \<lparr>settings_Validator =
             \<lparr>validator_Name = ''token-numeric'', validator_Tolerance = Some (round64 (1 / 10 ^ 6))\<rparr>,
           settings_Cases =
             [\<lparr>v1group_Cases = [\<lparr>v1case_Name = ''sample'', v1case_Weight = Finite 1\<rparr>],
               v1group_Name = ''sample'', v1group_Weight = Finite 1\<rparr>]\<rparr> \<and>
   validator_Tolerance (settings_Validator
       \<lparr>settings_Validator =
             \<lparr>validator_Name = ''token-numeric'', validator_Tolerance = Some (round64 (1 / 10 ^ 6))\<rparr>,
        settings_Cases =
             [\<lparr>v1group_Cases = [\<lparr>v1case_Name = ''sample'', v1case_Weight = Finite 1\<rparr>],
               v1group_Name = ''sample'', v1group_Weight = Finite 1\<rparr>]\<rparr>)
     = Some (round64 (1 / 10 ^ 6))"
proof -
  have run: "CreateArchiveFromGit
     (Inr \<lparr>settings_Validator = \<lparr>validator_Name = ''token-numeric'', validator_Tolerance = None\<rparr>,
           settings_Cases = []\<rparr>)
     (Inr [(''sample'', Finite 1)])
   = Inr \<lparr>settings_Validator =
             \<lparr>validator_Name = ''token-numeric'', validator_Tolerance = Some (round64 (1 / 10 ^ 6))\<rparr>,
           settings_Cases =
             [\<lparr>v1group_Cases = [\<lparr>v1case_Name = ''sample'', v1case_Weight = Finite 1\<rparr>],
               v1group_Name = ''sample'', v1group_Weight = Finite 1\<rparr>]\<rparr>"
    by code_simp
  from CreateArchiveFromGit_tolerance [OF run] run show ?thesis by (simp del: power_numeral)
qed

section \<open>Tokens of ASCII data\<close>

lemma DecodeRune_ascii:
  assumes "i < length data" "of_char (data ! i) < (128::nat)"
  shows "DecodeRune (drop i data) = (of_char (data ! i), 1)"
proof -
  have "drop i data = data ! i # drop (Suc i) data"
    using assms(1) by (simp add: Cons_nth_drop_Suc)
  then show ?thesis using assms(2) by (simp add: DecodeRune_def byteAt_def)
qed

lemma tokenLoop_plain:
  assumes "\<forall>j. i \<le> j \<and> j < k \<longrightarrow> of_char (data ! j) < (128::nat) \<and> \<not> sep (of_char (data ! j))"
    and "i \<le> k" and "k \<le> length data"
  shows "tokenLoop sep data start i = tokenLoop sep data start k"
  using assms
proof (induction "k - i" arbitrary: i)
  case 0
  then show ?case by simp
next
  case (Suc n)
  then have lt: "i < k" "i < length data" by auto
  then have d: "DecodeRune (drop i data) = (of_char (data ! i), 1)"
    using Suc.prems(1) by (intro DecodeRune_ascii) auto
  have ns: "\<not> sep (of_char (data ! i))" using Suc.prems(1) lt by auto
  have "tokenLoop sep data start i = tokenLoop sep data start (i + 1)"
    using lt d ns by (subst tokenLoop.simps) simp
  also have "\<dots> = tokenLoop sep data start k"
    using Suc.hyps(2) Suc.prems lt by (intro Suc.hyps(1)) auto
  finally show ?case .
qed

lemma tokenLoop_sep:
  assumes "k < length data" "of_char (data ! k) < (128::nat)" "sep (of_char (data ! k))"
  shows "tokenLoop sep data start k = Some (k + 1, take (k - start) (drop start data))"
  using assms DecodeRune_ascii [OF assms(1,2)] by (subst tokenLoop.simps) simp

lemma tokenLoop_end: "tokenLoop sep data start (length data) = None"
  by (subst tokenLoop.simps) simp

lemma skipLoop_seps:
  assumes "\<forall>j. i \<le> j \<and> j < k \<longrightarrow> of_char (data ! j) < (128::nat) \<and> sep (of_char (data ! j))"
    and "i \<le> k" and "k \<le> length data"
  shows "skipLoop sep data i = skipLoop sep data k"
  using assms
proof (induction "k - i" arbitrary: i)
  case 0
  then show ?case by simp
next
  case (Suc n)
  then have lt: "i < k" "i < length data" by auto
  then have d: "DecodeRune (drop i data) = (of_char (data ! i), 1)"
    using Suc.prems(1) by (intro DecodeRune_ascii) auto
  have s: "sep (of_char (data ! i))" using Suc.prems(1) lt by auto
  have "skipLoop sep data i = skipLoop sep data (i + 1)"
    using lt d s by (subst skipLoop.simps) simp
  also have "\<dots> = skipLoop sep data k"
    using Suc.hyps(2) Suc.prems lt by (intro Suc.hyps(1)) auto
  finally show ?case .
qed

lemma skipLoop_stop:
  assumes "k < length data \<longrightarrow> of_char (data ! k) < (128::nat) \<and> \<not> sep (of_char (data ! k))"
  shows "skipLoop sep data k = k"
proof (cases "k < length data")
  case True
  then show ?thesis using assms DecodeRune_ascii [of k data] by (subst skipLoop.simps) simp
next
  case False
  then show ?thesis by (subst skipLoop.simps) simp
qed

text \<open>
  The split functions on ASCII data: after separators \<open>sp\<close>, a token \<open>tok\<close> of bytes
  below \<open>0x80\<close> that are not separators is returned whole.
\<close>

lemma splitWith_token:
  assumes sp: "\<forall>c \<in> set sp. of_char c < (128::nat) \<and> sep (of_char c)"
    and tok: "tok \<noteq> []" "\<forall>c \<in> set tok. of_char c < (128::nat) \<and> \<not> sep (of_char c)"
    and s: "of_char s < (128::nat)" "sep (of_char s)"
  shows "splitWith sep (sp @ tok @ s # rest) atEOF = (length sp + length tok + 1, Some tok)"
proof -
  let ?data = "sp @ tok @ s # rest"
  let ?a = "length sp" and ?b = "length sp + length tok"
  have nth_sp: "?data ! j = sp ! j" if "j < ?a" for j using that by (simp add: nth_append)
  have nth_tok: "?data ! j = tok ! (j - ?a)" if "?a \<le> j" "j < ?b" for j
  proof -
    have "j - ?a < length tok" using that by arith
    then show ?thesis using that(1) by (simp add: nth_append)
  qed
  have nth_s: "?data ! ?b = s" by (simp add: nth_append)
  have "skipLoop sep ?data 0 = skipLoop sep ?data ?a"
    using sp nth_sp by (intro skipLoop_seps) auto
  also have "\<dots> = ?a"
  proof (intro skipLoop_stop impI)
    have "?data ! ?a = tok ! 0" using tok(1) nth_tok [of ?a] by simp
    moreover have "tok ! 0 \<in> set tok" using tok(1) by simp
    ultimately show "of_char (?data ! ?a) < (128::nat) \<and> \<not> sep (of_char (?data ! ?a))"
      using tok(2) by simp
  qed
  finally have skip: "skipLoop sep ?data 0 = ?a" .
  have "tokenLoop sep ?data ?a ?a = tokenLoop sep ?data ?a ?b"
  proof (intro tokenLoop_plain allI impI)
    fix j assume j: "?a \<le> j \<and> j < ?b"
    then have "tok ! (j - ?a) \<in> set tok" by (intro nth_mem) auto
    then show "of_char (?data ! j) < (128::nat) \<and> \<not> sep (of_char (?data ! j))"
      using tok(2) nth_tok j by simp
  qed simp_all
  also have "\<dots> = Some (?b + 1, take (?b - ?a) (drop ?a ?data))"
    using s nth_s by (intro tokenLoop_sep) simp_all
  also have "take (?b - ?a) (drop ?a ?data) = tok" by simp
  finally show ?thesis by (simp add: splitWith_def skip)
qed

lemma splitWith_last:
  assumes sp: "\<forall>c \<in> set sp. of_char c < (128::nat) \<and> sep (of_char c)"
    and tok: "tok \<noteq> []" "\<forall>c \<in> set tok. of_char c < (128::nat) \<and> \<not> sep (of_char c)"
  shows "splitWith sep (sp @ tok) True = (length sp + length tok, Some tok)"
proof -
  let ?data = "sp @ tok"
  let ?a = "length sp" and ?b = "length sp + length tok"
  have nth_sp: "?data ! j = sp ! j" if "j < ?a" for j using that by (simp add: nth_append)
  have nth_tok: "?data ! j = tok ! (j - ?a)" if "?a \<le> j" "j < ?b" for j
    using that by (simp add: nth_append)
  have "skipLoop sep ?data 0 = skipLoop sep ?data ?a"
    using sp nth_sp by (intro skipLoop_seps) auto
  also have "\<dots> = ?a"
  proof (intro skipLoop_stop impI)
    have "?data ! ?a = tok ! 0" using tok(1) nth_tok [of ?a] by simp
    moreover have "tok ! 0 \<in> set tok" using tok(1) by simp
    ultimately show "of_char (?data ! ?a) < (128::nat) \<and> \<not> sep (of_char (?data ! ?a))"
      using tok(2) by simp
  qed
  finally have skip: "skipLoop sep ?data 0 = ?a" .
  have "tokenLoop sep ?data ?a ?a = tokenLoop sep ?data ?a ?b"
  proof (intro tokenLoop_plain allI impI)
    fix j assume j: "?a \<le> j \<and> j < ?b"
    then have "tok ! (j - ?a) \<in> set tok" by (intro nth_mem) auto
    then show "of_char (?data ! j) < (128::nat) \<and> \<not> sep (of_char (?data ! j))"
      using tok(2) nth_tok j by simp
  qed simp_all
  also have "\<dots> = None" using tokenLoop_end [of sep ?data ?a] by simp
  finally show ?thesis using tok(1) by (simp add: splitWith_def skip)
qed

lemma splitWith_none:
  assumes sp: "\<forall>c \<in> set sp. of_char c < (128::nat) \<and> sep (of_char c)"
  shows "splitWith sep sp True = (length sp, None)"
proof -
  have "skipLoop sep sp 0 = skipLoop sep sp (length sp)"
    using sp by (intro skipLoop_seps) auto
  also have "\<dots> = length sp" by (intro skipLoop_stop) simp
  finally have skip: "skipLoop sep sp 0 = length sp" .
  show ?thesis using tokenLoop_end [of sep sp "length sp"] by (simp add: splitWith_def skip)
qed

section \<open>Properties of Verify and of broadcastRun\<close>

text \<open>
  Claim C2, as amended. \<open>Verify\<close> succeeds if and only if the archive can be examined and
  hashed, the first word of the \<open>.sha1\<close> sidecar is the hexadecimal SHA-1 of the archive's
  bytes, and the first line of the \<open>.len\<close> sidecar is a 64-bit decimal number; that number
  is recorded as the uncompressed size and compared with nothing. When the stored hash
  differs from the hash of the archive, \<open>Verify\<close> fails with the hash verification error.
\<close>

theorem Verify_succeeds_iff:
  "((\<exists>input'. Verify files input = Inr input') =
      (\<exists>archiveSize hash len.
          archiveStat files = Inr archiveSize \<and> archiveSha1sum files = Inr hash \<and>
          getStoredHash files = Inr (hex hash) \<and> getStoredLength files = Inr len)) \<and>
   (\<forall>archiveSize hash stored.
      archiveStat files = Inr archiveSize \<and> archiveSha1sum files = Inr hash \<and>
      getStoredHash files = Inr stored \<and> stored \<noteq> hex hash \<longrightarrow>
      Verify files input = Inl HashVerificationFailed) \<and>
   (\<forall>input'. Verify files input = Inr input' \<longrightarrow>
      getStoredHash files = Inr (storedHash input') \<and>
      getStoredLength files = Inr (uncompressedSize input'))"
  by (auto simp: Verify_def split: sum.splits)

theorem Verify_succeeds_iff_witness:
  "Verify
     \<lparr>archiveStat = Inr 42, archiveSha1sum = Inr ''0123456789abcdefghij'',
      sha1File = Inr (''303132333435363738396162636465666768696a *ab.tar.gz'' @ [CHR 0x0A]),
      lenFile = Inr (''100'' @ [CHR 0x0A]), actualUncompressedSize = 100\<rparr>
     \<lparr>archivePath = ''cache/00/ab.tar.gz'', storedHash = '''', uncompressedSize = 0,
      committedSize = None\<rparr>
   = Inr \<lparr>archivePath = ''cache/00/ab.tar.gz'',
          storedHash = ''303132333435363738396162636465666768696a'', uncompressedSize = 100,
          committedSize = Some 42\<rparr> \<and>
   Verify
     \<lparr>archiveStat = Inr 42, archiveSha1sum = Inr ''0123456789abcdefghij'',
      sha1File = Inr (''da39a3ee5e6b4b0d3255bfef95601890afd80709 *ab.tar.gz'' @ [CHR 0x0A]),
      lenFile = Inr (''100'' @ [CHR 0x0A]), actualUncompressedSize = 100\<rparr>
     \<lparr>archivePath = ''cache/00/ab.tar.gz'', storedHash = '''', uncompressedSize = 0,
      committedSize = None\<rparr>
   = Inl HashVerificationFailed"
proof -
  let ?ok = "\<lparr>archiveStat = Inr 42, archiveSha1sum = Inr ''0123456789abcdefghij'',
      sha1File = Inr (''303132333435363738396162636465666768696a *ab.tar.gz'' @ [CHR 0x0A]),
      lenFile = Inr (''100'' @ [CHR 0x0A]), actualUncompressedSize = 100\<rparr>"
  let ?bad = "\<lparr>archiveStat = Inr 42, archiveSha1sum = Inr ''0123456789abcdefghij'',
      sha1File = Inr (''da39a3ee5e6b4b0d3255bfef95601890afd80709 *ab.tar.gz'' @ [CHR 0x0A]),
      lenFile = Inr (''100'' @ [CHR 0x0A]), actualUncompressedSize = 100\<rparr>"
  let ?in = "\<lparr>archivePath = ''cache/00/ab.tar.gz'', storedHash = '''', uncompressedSize = 0,
      committedSize = None\<rparr>"
  have h: "hex ''0123456789abcdefghij'' = ''303132333435363738396162636465666768696a''"
    by code_simp
  have s1: "getStoredHash ?ok = Inr ''303132333435363738396162636465666768696a''"
    using splitWith_token [of "[]" IsSpace "''303132333435363738396162636465666768696a''"
        "CHR '' ''" "''*ab.tar.gz'' @ [CHR 0x0A]" True]
    by (simp add: getStoredHash_def ScanWords_def IsSpace_def)
  have s2: "getStoredHash ?bad = Inr ''da39a3ee5e6b4b0d3255bfef95601890afd80709''"
    using splitWith_token [of "[]" IsSpace "''da39a3ee5e6b4b0d3255bfef95601890afd80709''"
        "CHR '' ''" "''*ab.tar.gz'' @ [CHR 0x0A]" True]
    by (simp add: getStoredHash_def ScanWords_def IsSpace_def)
  have l: "getStoredLength ?ok = Inr 100"
    by (simp add: getStoredLength_def ScanLines_def dropCR_def ParseInt_def isDigit_def)
  have ne: "''da39a3ee5e6b4b0d3255bfef95601890afd80709'' \<noteq> hex ''0123456789abcdefghij''"
    unfolding h by simp
  from Verify_succeeds_iff [of ?ok ?in] s1 l h
  obtain input' where v: "Verify ?ok ?in = Inr input'" by auto
  have "Verify ?bad ?in = Inl HashVerificationFailed"
    using Verify_succeeds_iff [of ?bad ?in] s2 ne by auto
  moreover have "Verify ?ok ?in = Inr \<lparr>archivePath = ''cache/00/ab.tar.gz'',
          storedHash = ''303132333435363738396162636465666768696a'', uncompressedSize = 100,
          committedSize = Some 42\<rparr>"
    using s1 l h by (simp add: Verify_def)
  ultimately show ?thesis by simp
qed

text \<open>
  Claim C2 as stated fails: for an archive whose entries total 100 bytes and whose \<open>.len\<close>
  sidecar says 5, with the right hash in the \<open>.sha1\<close> sidecar, \<open>Verify\<close> succeeds and
  records 5.
\<close>

theorem Verify_ignores_length_counterexample:
  "Verify
     \<lparr>archiveStat = Inr 42, archiveSha1sum = Inr ''0123456789abcdefghij'',
      sha1File = Inr (''303132333435363738396162636465666768696a *ab.tar.gz'' @ [CHR 0x0A]),
      lenFile = Inr (''5'' @ [CHR 0x0A]), actualUncompressedSize = 100\<rparr>
     \<lparr>archivePath = ''cache/00/ab.tar.gz'', storedHash = '''', uncompressedSize = 0,
      committedSize = None\<rparr>
   = Inr \<lparr>archivePath = ''cache/00/ab.tar.gz'',
          storedHash = ''303132333435363738396162636465666768696a'', uncompressedSize = 5,
          committedSize = Some 42\<rparr> \<and>
   getStoredLength
     \<lparr>archiveStat = Inr 42, archiveSha1sum = Inr ''0123456789abcdefghij'',
      sha1File = Inr (''303132333435363738396162636465666768696a *ab.tar.gz'' @ [CHR 0x0A]),
      lenFile = Inr (''5'' @ [CHR 0x0A]), actualUncompressedSize = 100\<rparr> = Inr 5 \<and>
   actualUncompressedSize
     \<lparr>archiveStat = Inr 42, archiveSha1sum = Inr ''0123456789abcdefghij'',
      sha1File = Inr (''303132333435363738396162636465666768696a *ab.tar.gz'' @ [CHR 0x0A]),
      lenFile = Inr (''5'' @ [CHR 0x0A]), actualUncompressedSize = 100\<rparr> \<noteq> 5"
proof -
  let ?f = "\<lparr>archiveStat = Inr 42, archiveSha1sum = Inr ''0123456789abcdefghij'',
      sha1File = Inr (''303132333435363738396162636465666768696a *ab.tar.gz'' @ [CHR 0x0A]),
      lenFile = Inr (''5'' @ [CHR 0x0A]), actualUncompressedSize = 100\<rparr>"
  have h: "hex ''0123456789abcdefghij'' = ''303132333435363738396162636465666768696a''"
    by code_simp
  have s: "getStoredHash ?f = Inr ''303132333435363738396162636465666768696a''"
    using splitWith_token [of "[]" IsSpace "''303132333435363738396162636465666768696a''"
        "CHR '' ''" "''*ab.tar.gz'' @ [CHR 0x0A]" True]
    by (simp add: getStoredHash_def ScanWords_def IsSpace_def)
  have l: "getStoredLength ?f = Inr 5"
    by (simp add: getStoredLength_def ScanLines_def dropCR_def ParseInt_def isDigit_def)
  show ?thesis using h s l by (simp add: Verify_def)
qed

text \<open>
  Claim C10. In the message that \<open>broadcastRun\<close> hands to the broadcaster for a finished
  run, the score and the contest score are 0 when the run does not use partial scoring and
  its score, the \<open>float64\<close> that the message carries, is not exactly 1; when partial scoring
  is used or the score equals 1 they are the score and the contest score of the run. Such a
  message is sent for every run that is not ephemeral, whose row the database returns and
  whose scores are finite.
\<close>

theorem broadcastRun_scores:
  "(broadcastRun row run = Inr (Some msg) \<longrightarrow>
      (\<not> info_PartialScore run \<and> RationalToFloat (info_Score run) \<noteq> Finite 1 \<longrightarrow>
         msg_Score msg = Finite 0 \<and> msg_ContestScore msg = Finite 0) \<and>
      (info_PartialScore run \<or> RationalToFloat (info_Score run) = Finite 1 \<longrightarrow>
         msg_Score msg = RationalToFloat (info_Score run) \<and>
         msg_ContestScore msg = RationalToFloat (info_ContestScore run))) \<and>
   (info_ID run \<noteq> 0 \<and> row = Inr user \<and>
    isFinite (RationalToFloat (info_Score run)) \<and>
    isFinite (RationalToFloat (info_ContestScore run)) \<longrightarrow>
      (\<exists>m. broadcastRun row run = Inr (Some m)))"
  by (auto simp: broadcastRun_def Let_def isFinite_def split: sum.splits if_splits)

theorem broadcastRun_scores_witness:
  "broadcastRun (Inr ''alice'')
     \<lparr>info_ID = 7, info_GUID = ''0123456789abcdef0123456789abcdef'', info_PartialScore = False,
      info_Score = 1 / 2, info_ContestScore = 50, info_Verdict = ''PA''\<rparr>
   = Inr (Some \<lparr>msg_User = ''alice'', msg_GUID = ''0123456789abcdef0123456789abcdef'',
                msg_Score = Finite 0, msg_ContestScore = Finite 0, msg_Status = ''ready'',
                msg_Verdict = ''PA''\<rparr>) \<and>
   broadcastRun (Inr ''alice'')
     \<lparr>info_ID = 7, info_GUID = ''0123456789abcdef0123456789abcdef'', info_PartialScore = True,
      info_Score = 1 / 2, info_ContestScore = 50, info_Verdict = ''PA''\<rparr>
   = Inr (Some \<lparr>msg_User = ''alice'', msg_GUID = ''0123456789abcdef0123456789abcdef'',
                msg_Score = Finite (1 / 2), msg_ContestScore = Finite 50, msg_Status = ''ready'',
                msg_Verdict = ''PA''\<rparr>)"
proof -
  let ?r = "\<lambda>p. \<lparr>info_ID = 7, info_GUID = ''0123456789abcdef0123456789abcdef'',
      info_PartialScore = p, info_Score = 1 / 2, info_ContestScore = 50, info_Verdict = ''PA''\<rparr>"
  have half: "RationalToFloat (1 / 2) = Finite (1 / 2)" by code_simp
  have fifty: "RationalToFloat 50 = Finite 50" by code_simp
  have ne: "RationalToFloat (info_Score (?r False)) \<noteq> Finite 1" using half by simp
  obtain m where m: "broadcastRun (Inr ''alice'') (?r False) = Inr (Some m)"
    using broadcastRun_scores [of "Inr ''alice''" "?r False" undefined "''alice''"] half fifty
    by (auto simp: isFinite_def)
  have "msg_Score m = Finite 0 \<and> msg_ContestScore m = Finite 0"
    using broadcastRun_scores [of "Inr ''alice''" "?r False" m "''alice''"] m ne by simp
  then have a: "broadcastRun (Inr ''alice'') (?r False) =
      Inr (Some \<lparr>msg_User = ''alice'', msg_GUID = ''0123456789abcdef0123456789abcdef'',
                msg_Score = Finite 0, msg_ContestScore = Finite 0, msg_Status = ''ready'',
                msg_Verdict = ''PA''\<rparr>)"
    using half by (simp add: broadcastRun_def isFinite_def Let_def)
  have b: "broadcastRun (Inr ''alice'') (?r True) =
      Inr (Some \<lparr>msg_User = ''alice'', msg_GUID = ''0123456789abcdef0123456789abcdef'',
                msg_Score = Finite (1 / 2), msg_ContestScore = Finite 50, msg_Status = ''ready'',
                msg_Verdict = ''PA''\<rparr>)"
    using half fifty by (simp add: broadcastRun_def isFinite_def Let_def)
  from a b show ?thesis by simp
qed

section \<open>Properties of CalculateScore\<close>

lemma Scan_numeric_1_dash:
  "Scan \<lparr>sc_split = ScanNumericTokens, sc_unread = ''1 -'', sc_token = t\<rparr> =
     (True, \<lparr>sc_split = ScanNumericTokens, sc_unread = ''-'', sc_token = ''1''\<rparr>)"
  using splitWith_token [of "[]" "\<lambda>r. \<not> isNumericRune r" "''1''" "CHR '' ''" "''-''" True]
  by (simp add: Scan_def scanNumericTokens_def isNumericRune_def)

lemma Scan_numeric_last:
  assumes "tok \<noteq> []" "\<forall>c \<in> set tok. of_char c < (128::nat) \<and> isNumericRune (of_char c)"
  shows "Scan \<lparr>sc_split = ScanNumericTokens, sc_unread = tok, sc_token = t\<rparr> =
     (True, \<lparr>sc_split = ScanNumericTokens, sc_unread = [], sc_token = tok\<rparr>)"
  using splitWith_last [of "[]" "\<lambda>r. \<not> isNumericRune r" tok] assms
  by (simp add: Scan_def scanNumericTokens_def)

lemma Scan_empty:
  "Scan \<lparr>sc_split = f, sc_unread = [], sc_token = t\<rparr> =
     (False, \<lparr>sc_split = f, sc_unread = [], sc_token = []\<rparr>)"
  using splitWith_none [of "[]" isSpace] splitWith_none [of "[]" "\<lambda>r. \<not> isNumericRune r"]
  by (cases f) (simp_all add: Scan_def scanTokens_def scanNumericTokens_def)

lemma ParseFloat_decimal_dash: "ParseFloat_decimal ''-'' = (Finite 0, Some ErrSyntax)"
  by (simp add: ParseFloat_decimal_def parseUnsigned_def)

lemma ParseFloat_decimal_empty: "ParseFloat_decimal '''' = (Finite 0, Some ErrSyntax)"
  by (simp add: ParseFloat_decimal_def parseUnsigned_def)

lemma ParseFloat_decimal_1: "ParseFloat_decimal ''1'' = (Finite 1, None)"
  by code_simp

lemma tokenNumeric_dash_empty: "tokenNumeric ParseFloat_decimal ''-'' '''' tolerance"
  by (simp add: tokenNumeric_def ParseFloat_decimal_dash ParseFloat_decimal_empty)

lemma tokenNumeric_1_1: "tokenNumeric ParseFloat_decimal ''1'' ''1'' (round64 (1 / 10 ^ 6))"
proof -
  have "fle (fabs (fsub (Finite 1) (Finite 1))) (fmul (fabs (Finite 1)) (round64 (1 / 10 ^ 6)))"
    by code_simp
  then show ?thesis by (simp add: tokenNumeric_def ParseFloat_decimal_1)
qed

lemma scoreLoop_numeric_dash_left:
  "scoreLoop EqualFold ParseFloat_decimal
     \<lparr>validator_Name = ''token-numeric'', validator_Tolerance = Some tolerance\<rparr>
     \<lparr>sc_split = ScanNumericTokens, sc_unread = ''-'', sc_token = t\<rparr>
     \<lparr>sc_split = ScanNumericTokens, sc_unread = [], sc_token = u\<rparr>
   = Inr (Finite 1, None)"
proof -
  let ?s = "\<lparr>validator_Name = ''token-numeric'', validator_Tolerance = Some tolerance\<rparr>"
  let ?e1 = "\<lparr>sc_split = ScanNumericTokens, sc_unread = [], sc_token = ''-''\<rparr>"
  let ?c1 = "\<lparr>sc_split = ScanNumericTokens, sc_unread = [], sc_token = []\<rparr>"
  have e0: "Scan \<lparr>sc_split = ScanNumericTokens, sc_unread = ''-'', sc_token = t\<rparr> = (True, ?e1)"
    by (intro Scan_numeric_last) (simp_all add: isNumericRune_def)
  have last: "scoreLoop EqualFold ParseFloat_decimal ?s ?e1 ?c1 = Inr (Finite 1, None)"
    by (subst scoreLoop.simps) (simp add: Scan_empty scoreOf_def)
  show ?thesis
    by (subst scoreLoop.simps) (simp add: e0 Scan_empty tokenNumeric_dash_empty last)
qed

lemma Scan_tokens_last:
  assumes "tok \<noteq> []" "\<forall>c \<in> set tok. of_char c < (128::nat) \<and> \<not> isSpace (of_char c)"
  shows "Scan \<lparr>sc_split = ScanTokens, sc_unread = tok, sc_token = t\<rparr> =
     (True, \<lparr>sc_split = ScanTokens, sc_unread = [], sc_token = tok\<rparr>)"
  using splitWith_last [of "[]" isSpace tok] assms
  by (simp add: Scan_def scanTokens_def)

lemma Scan_tokens_1_dash:
  "Scan \<lparr>sc_split = ScanTokens, sc_unread = ''1 -'', sc_token = t\<rparr> =
     (True, \<lparr>sc_split = ScanTokens, sc_unread = ''-'', sc_token = ''1''\<rparr>)"
  using splitWith_token [of "[]" isSpace "''1''" "CHR '' ''" "''-''" True]
  by (simp add: Scan_def scanTokens_def isSpace_def IsSpace_def)

text \<open>
  With the policy \<open>token\<close> a contestant stream that ends one token early scores 0.
\<close>

lemma CalculateScore_token_short_contestant:
  "CalculateScore EqualFold ParseFloat
     \<lparr>validator_Name = ''token'', validator_Tolerance = tolerance\<rparr> ''1'' ''1 -''
   = Inr (Finite 0, None)"
proof -
  let ?s = "\<lparr>validator_Name = ''token'', validator_Tolerance = tolerance\<rparr>"
  let ?e0 = "\<lparr>sc_split = ScanTokens, sc_unread = ''1 -'', sc_token = []\<rparr>"
  let ?c0 = "\<lparr>sc_split = ScanTokens, sc_unread = ''1'', sc_token = []\<rparr>"
  let ?e1 = "\<lparr>sc_split = ScanTokens, sc_unread = ''-'', sc_token = ''1''\<rparr>"
  let ?c1 = "\<lparr>sc_split = ScanTokens, sc_unread = [], sc_token = ''1''\<rparr>"
  let ?e2 = "\<lparr>sc_split = ScanTokens, sc_unread = [], sc_token = ''-''\<rparr>"
  have e0: "Scan ?e0 = (True, ?e1)" by (rule Scan_tokens_1_dash)
  have c0: "Scan ?c0 = (True, ?c1)"
    by (intro Scan_tokens_last) (simp_all add: isSpace_def IsSpace_def)
  have e1: "Scan ?e1 = (True, ?e2)"
    by (intro Scan_tokens_last) (simp_all add: isSpace_def IsSpace_def)
  have second: "scoreLoop EqualFold ParseFloat ?s ?e1 ?c1 = Inr (Finite 0, None)"
    by (subst scoreLoop.simps) (simp add: e1 Scan_empty token_def scoreOf_def)
  have "scoreLoop EqualFold ParseFloat ?s ?e0 ?c0 = Inr (Finite 0, None)"
    by (subst scoreLoop.simps) (simp add: e0 c0 token_def second Let_def)
  then show ?thesis by (simp add: CalculateScore_def NewScanner_def)
qed

text \<open>
  Claim C3 says that the score is 0 whenever one stream ends while the other still yields a
  token. For the policy \<open>token-numeric\<close> the code does not do so: when the contestant
  stream has ended and the expected stream yields a token that is not a number, such as
  \<open>-\<close>, the \<open>switch\<close> overwrites the \<open>correct = false\<close> of the mismatch with the
  result of comparing that token with the empty text, which holds because neither parses.
  An empty output scores 1 against the expected output \<open>-\<close>, and the output \<open>1\<close> scores
  1 against \<open>1 -\<close>.
\<close>

theorem CalculateScore_numeric_short_contestant:
  "CalculateScore EqualFold ParseFloat_decimal
     \<lparr>validator_Name = ''token-numeric'', validator_Tolerance = Some tolerance\<rparr> [] ''-''
   = Inr (Finite 1, None) \<and>
   CalculateScore EqualFold ParseFloat_decimal
     \<lparr>validator_Name = ''token-numeric'', validator_Tolerance = Some (round64 (1 / 10 ^ 6))\<rparr>
     ''1'' ''1 -''
   = Inr (Finite 1, None)"
proof
  show "CalculateScore EqualFold ParseFloat_decimal
     \<lparr>validator_Name = ''token-numeric'', validator_Tolerance = Some tolerance\<rparr> [] ''-''
     = Inr (Finite 1, None)"
    by (simp add: CalculateScore_def NewScanner_def scoreLoop_numeric_dash_left)
next
  let ?s = "\<lparr>validator_Name = ''token-numeric'',
             validator_Tolerance = Some (round64 (1 / 10 ^ 6))\<rparr>"
  let ?e0 = "\<lparr>sc_split = ScanNumericTokens, sc_unread = ''1 -'', sc_token = []\<rparr>"
  let ?c0 = "\<lparr>sc_split = ScanNumericTokens, sc_unread = ''1'', sc_token = []\<rparr>"
  let ?e1 = "\<lparr>sc_split = ScanNumericTokens, sc_unread = ''-'', sc_token = ''1''\<rparr>"
  let ?c1 = "\<lparr>sc_split = ScanNumericTokens, sc_unread = [], sc_token = ''1''\<rparr>"
  have e0: "Scan ?e0 = (True, ?e1)" by (rule Scan_numeric_1_dash)
  have c0: "Scan ?c0 = (True, ?c1)"
    by (intro Scan_numeric_last) (simp_all add: isNumericRune_def)
  have rest: "scoreLoop EqualFold ParseFloat_decimal ?s ?e1 ?c1 = Inr (Finite 1, None)"
    by (rule scoreLoop_numeric_dash_left)
  have "scoreLoop EqualFold ParseFloat_decimal ?s ?e0 ?c0 =
      scoreLoop EqualFold ParseFloat_decimal ?s ?e1 ?c1"
    using tokenNumeric_1_1
    by (subst scoreLoop.simps) (simp add: e0 c0 Let_def del: power_numeral)
  with rest have "scoreLoop EqualFold ParseFloat_decimal ?s ?e0 ?c0 = Inr (Finite 1, None)"
    by simp
  moreover have "CalculateScore EqualFold ParseFloat_decimal ?s ''1'' ''1 -'' =
      scoreLoop EqualFold ParseFloat_decimal ?s ?e0 ?c0"
    by (simp add: CalculateScore_def NewScanner_def)
  ultimately show "CalculateScore EqualFold ParseFloat_decimal ?s ''1'' ''1 -'' =
      Inr (Finite 1, None)"
    by simp
qed

section \<open>The final verdict and score of a run\<close>

lemma totalWeightFactor_defined: "\<exists>f. totalWeightFactor groups = Inr f"
  by (simp add: totalWeightFactor_def rat_Quo_def Let_def)

lemma Grade_runCases_all_OK:
  assumes "''OK'' \<in> set vl" and "\<forall>c \<in> set cs. runVerdict (case_Name c) = ''OK''"
  shows "\<exists>crs. Grade_runCases vl runVerdict maxScore factor cs ''OK'' = Inr (''OK'', crs) \<and>
           (\<forall>r \<in> set crs. cr_Verdict r = ''OK'')"
  using assms(2)
proof (induction cs)
  case Nil
  then show ?case by simp
next
  case (Cons c cs)
  have w: "worseVerdict vl ''OK'' ''OK'' = Inr ''OK''"
    using assms(1) by (rule worseVerdict_same)
  from Cons obtain crs where
    "Grade_runCases vl runVerdict maxScore factor cs ''OK'' = Inr (''OK'', crs)"
    "\<forall>r \<in> set crs. cr_Verdict r = ''OK''" by auto
  then show ?case using Cons.prems w by simp
qed

lemma Grade_runGroups_all_OK:
  assumes "''OK'' \<in> set vl"
    and "\<forall>g \<in> set groups. \<forall>c \<in> set (group_Cases g). runVerdict (case_Name c) = ''OK''"
  shows "\<exists>grs. Grade_runGroups vl runVerdict maxScore factor groups ''OK'' = Inr (''OK'', grs) \<and>
           (\<forall>gr \<in> set grs. \<forall>r \<in> set (gr_Cases gr). cr_Verdict r = ''OK'')"
  using assms(2)
proof (induction groups)
  case Nil
  then show ?case by simp
next
  case (Cons g groups)
  obtain crs where c:
    "Grade_runCases vl runVerdict maxScore factor (group_Cases g) ''OK'' = Inr (''OK'', crs)"
    "\<forall>r \<in> set crs. cr_Verdict r = ''OK''"
    using Grade_runCases_all_OK [OF assms(1), of "group_Cases g" runVerdict maxScore factor]
      Cons.prems by auto
  from Cons obtain grs where
    "Grade_runGroups vl runVerdict maxScore factor groups ''OK'' = Inr (''OK'', grs)"
    "\<forall>gr \<in> set grs. \<forall>r \<in> set (gr_Cases gr). cr_Verdict r = ''OK''" by auto
  then show ?case using c by simp
qed

lemma Grade_validateCases_all_one:
  assumes "\<forall>(c, r) \<in> set pairs. cr_Verdict r = ''OK'' \<and> runScore (case_Name c) = Some 1"
  shows "\<exists>sc crs. Grade_validateCases vl runScore maxScore factor pairs (v, correct, score) =
           Inr ((v, correct, sc), crs)"
  using assms
proof (induction pairs arbitrary: score)
  case Nil
  then show ?case by simp
next
  case (Cons p pairs)
  obtain c r where p: "p = (c, r)" by (cases p)
  have ok: "cr_Verdict r = ''OK''" "runScore (case_Name c) = Some 1"
    using Cons.prems p by auto
  from Cons.IH [of "score + 1 * normalizedWeight factor c"] Cons.prems
  obtain sc crs where
    "Grade_validateCases vl runScore maxScore factor pairs
       (v, correct, score + 1 * normalizedWeight factor c) = Inr ((v, correct, sc), crs)"
    by auto
  then show ?case using p ok by (simp add: Let_def)
qed

lemma Grade_validateGroups_all_one:
  assumes "\<forall>(g, gr) \<in> set gpairs. \<forall>(c, r) \<in> set (zip (group_Cases g) (gr_Cases gr)).
             cr_Verdict r = ''OK'' \<and> runScore (case_Name c) = Some 1"
  shows "\<exists>t grs. Grade_validateGroups vl runScore maxScore factor gpairs (v, runTotal) =
           Inr ((v, t), grs)"
  using assms
proof (induction gpairs arbitrary: runTotal)
  case Nil
  then show ?case by simp
next
  case (Cons p gpairs)
  obtain g gr where p: "p = (g, gr)" by (cases p)
  have "\<forall>(c, r) \<in> set (zip (group_Cases g) (gr_Cases gr)).
          cr_Verdict r = ''OK'' \<and> runScore (case_Name c) = Some 1"
    using Cons.prems p by auto
  from Grade_validateCases_all_one [OF this, of vl maxScore factor v True 0]
  obtain sc crs where c:
    "Grade_validateCases vl runScore maxScore factor (zip (group_Cases g) (gr_Cases gr))
       (v, True, 0) = Inr ((v, True, sc), crs)" by auto
  from Cons.IH [of "runTotal + sc"] Cons.prems
  obtain t grs where
    "Grade_validateGroups vl runScore maxScore factor gpairs (v, runTotal + sc) =
       Inr ((v, t), grs)" by auto
  then show ?case using p c by (simp add: Let_def)
qed

lemma Grade_finish_ContestScore:
  "run_ContestScore (Grade_finish r) = run_MaxScore r * run_Score (Grade_finish r) \<and>
   run_MaxScore (Grade_finish r) = run_MaxScore r"
  by (simp add: Grade_finish_def Let_def)

lemma Grade_results_all_one:
  assumes ok: "''OK'' \<in> set vl"
    and all: "\<forall>g \<in> set groups. \<forall>c \<in> set (group_Cases g).
        runVerdict (case_Name c) = ''OK'' \<and> runScore (case_Name c) = Some 1"
  shows "\<exists>res. Grade_results vl runVerdict runScore maxScore groups = Inr res \<and>
     run_Verdict res = ''AC'' \<and> run_Score res = 1 \<and> run_ContestScore res = maxScore"
proof -
  obtain f where f: "totalWeightFactor groups = Inr f"
    using totalWeightFactor_defined by blast
  obtain grs where run:
    "Grade_runGroups vl runVerdict maxScore f groups ''OK'' = Inr (''OK'', grs)"
    "\<forall>gr \<in> set grs. \<forall>r \<in> set (gr_Cases gr). cr_Verdict r = ''OK''"
    using Grade_runGroups_all_OK [OF ok, of groups runVerdict maxScore f] all by auto
  have pairs: "\<forall>(g, gr) \<in> set (zip groups grs). \<forall>(c, r) \<in> set (zip (group_Cases g) (gr_Cases gr)).
      cr_Verdict r = ''OK'' \<and> runScore (case_Name c) = Some 1"
  proof (intro ballI, clarify)
    fix g gr c r
    assume "(g, gr) \<in> set (zip groups grs)" "(c, r) \<in> set (zip (group_Cases g) (gr_Cases gr))"
    then have "g \<in> set groups" "gr \<in> set grs" "c \<in> set (group_Cases g)" "r \<in> set (gr_Cases gr)"
      by (auto dest: set_zip_leftD set_zip_rightD)
    then show "cr_Verdict r = ''OK'' \<and> runScore (case_Name c) = Some 1"
      using all run(2) by blast
  qed
  from Grade_validateGroups_all_one [OF pairs, of vl maxScore f "''OK''" 0]
  obtain t grs' where
    "Grade_validateGroups vl runScore maxScore f (zip groups grs) (''OK'', 0) =
       Inr ((''OK'', t), grs')" by auto
  then show ?thesis using f run(1) by (simp add: Grade_results_def Grade_finish_def Let_def)
qed

text \<open>
  Claim C8. After all groups are aggregated in \<open>Grade\<close>: a run whose verdict is \<open>PA\<close>
  and whose score is 0 gets the verdict \<open>WA\<close>; a run whose verdict is \<open>OK\<close> gets the
  verdict \<open>AC\<close> and the score 1; and in every case the contest score is the maximum
  score times the final score. The first three conjuncts are about the last statements,
  for every state the loops can leave; the fourth is about every result \<open>Grade\<close> returns;
  the fifth is the run in which every case is executed with \<open>OK\<close> and scores 1: it
  ends with the verdict \<open>AC\<close>, the score 1 and the whole maximum score.
\<close>

theorem Grade_final_verdict:
  "(run_Verdict r = ''PA'' \<and> run_Score r = 0 \<longrightarrow> run_Verdict (Grade_finish r) = ''WA'') \<and>
   (run_Verdict r = ''OK'' \<longrightarrow>
      run_Verdict (Grade_finish r) = ''AC'' \<and> run_Score (Grade_finish r) = 1) \<and>
   run_ContestScore (Grade_finish r) = run_MaxScore (Grade_finish r) * run_Score (Grade_finish r) \<and>
   (Grade_results vl runVerdict runScore maxScore groups = Inr res \<longrightarrow>
      run_MaxScore res = maxScore \<and> run_ContestScore res = maxScore * run_Score res) \<and>
   (''OK'' \<in> set vl \<and>
    (\<forall>g \<in> set groups. \<forall>c \<in> set (group_Cases g).
        runVerdict (case_Name c) = ''OK'' \<and> runScore (case_Name c) = Some 1) \<longrightarrow>
    (\<exists>res'. Grade_results vl runVerdict runScore maxScore groups = Inr res' \<and>
       run_Verdict res' = ''AC'' \<and> run_Score res' = 1 \<and> run_ContestScore res' = maxScore))"
proof (intro conjI impI)
  assume "run_Verdict r = ''PA'' \<and> run_Score r = 0"
  then show "run_Verdict (Grade_finish r) = ''WA''" by (simp add: Grade_finish_def Let_def)
next
  assume "run_Verdict r = ''OK''"
  then show "run_Verdict (Grade_finish r) = ''AC''" "run_Score (Grade_finish r) = 1"
    by (simp_all add: Grade_finish_def Let_def)
next
  show "run_ContestScore (Grade_finish r) = run_MaxScore (Grade_finish r) * run_Score (Grade_finish r)"
    by (simp add: Grade_finish_ContestScore)
next
  assume res: "Grade_results vl runVerdict runScore maxScore groups = Inr res"
  then obtain r0 where "res = Grade_finish r0" "run_MaxScore r0 = maxScore"
    by (auto simp: Grade_results_def split: sum.splits prod.splits)
  then show "run_MaxScore res = maxScore" "run_ContestScore res = maxScore * run_Score res"
    by (simp_all add: Grade_finish_ContestScore)
next
  assume "''OK'' \<in> set vl \<and>
    (\<forall>g \<in> set groups. \<forall>c \<in> set (group_Cases g).
        runVerdict (case_Name c) = ''OK'' \<and> runScore (case_Name c) = Some 1)"
  then show "\<exists>res'. Grade_results vl runVerdict runScore maxScore groups = Inr res' \<and>
       run_Verdict res' = ''AC'' \<and> run_Score res' = 1 \<and> run_ContestScore res' = maxScore"
    using Grade_results_all_one by blast
qed

theorem Grade_final_verdict_witness:
  "run_Verdict (Grade_finish \<lparr>run_Verdict = ''PA'', run_Score = 0, run_ContestScore = 0,
       run_MaxScore = 100, run_Groups = []\<rparr>) = ''WA'' \<and>
   run_Verdict (Grade_finish \<lparr>run_Verdict = ''OK'', run_Score = 1 / 2, run_ContestScore = 0,
       run_MaxScore = 100, run_Groups = []\<rparr>) = ''AC'' \<and>
   run_Score (Grade_finish \<lparr>run_Verdict = ''OK'', run_Score = 1 / 2, run_ContestScore = 0,
       run_MaxScore = 100, run_Groups = []\<rparr>) = 1 \<and>
   run_ContestScore (Grade_finish \<lparr>run_Verdict = ''OK'', run_Score = 1 / 2, run_ContestScore = 0,
       run_MaxScore = 100, run_Groups = []\<rparr>) = 100 \<and>
   (\<exists>res. Grade_results VerdictList (\<lambda>name. ''OK'') (\<lambda>name. Some 1) 100
        [\<lparr>group_Name = ''a'', group_Cases = [\<lparr>case_Name = ''a'', case_Weight = 1\<rparr>]\<rparr>] = Inr res \<and>
      run_Verdict res = ''AC'' \<and> run_Score res = 1 \<and> run_ContestScore res = 100)"
proof -
  let ?pa = "\<lparr>run_Verdict = ''PA'', run_Score = 0, run_ContestScore = 0,
       run_MaxScore = 100, run_Groups = []\<rparr>"
  let ?ok = "\<lparr>run_Verdict = ''OK'', run_Score = 1 / 2, run_ContestScore = 0,
       run_MaxScore = 100, run_Groups = []\<rparr>"
  let ?g = "[\<lparr>group_Name = ''a'', group_Cases = [\<lparr>case_Name = ''a'', case_Weight = 1\<rparr>]\<rparr>]"
  have mem: "''OK'' \<in> set VerdictList" by (simp add: VerdictList_def)
  have m: "run_MaxScore (Grade_finish ?ok) = 100" by (simp add: Grade_finish_def Let_def)
  have a: "run_Verdict (Grade_finish ?pa) = ''WA''"
    using Grade_final_verdict [of ?pa VerdictList "\<lambda>name. ''OK''" "\<lambda>name. Some 1" 100 ?g undefined]
    by simp
  have b: "run_Verdict (Grade_finish ?ok) = ''AC'' \<and> run_Score (Grade_finish ?ok) = 1 \<and>
      run_ContestScore (Grade_finish ?ok) = 100"
    using Grade_final_verdict [of ?ok VerdictList "\<lambda>name. ''OK''" "\<lambda>name. Some 1" 100 ?g undefined] m
    by simp
  have c: "\<exists>res. Grade_results VerdictList (\<lambda>name. ''OK'') (\<lambda>name. Some 1) 100 ?g = Inr res \<and>
      run_Verdict res = ''AC'' \<and> run_Score res = 1 \<and> run_ContestScore res = 100"
    using Grade_final_verdict [of ?ok VerdictList "\<lambda>name. ''OK''" "\<lambda>name. Some 1" 100 ?g undefined] mem
    by simp
  from a b c show ?thesis by simp
qed

end
